theory Spec2Isabelle
  imports Complex_Main
begin

section \<open>Rock physics simulation (src/game.js)\<close>

text \<open>
  The simulation keeps a list of circular rocks and advances it once per animation
  frame. The values of \<open>Math.random()\<close> and \<open>Date.now()\<close> are inputs. JavaScript numbers
  are modelled twice.

  \<^item> The frame as a whole (\<open>createRock\<close>, \<open>resolvePair\<close>, \<open>updatePhysics\<close>, \<open>animate\<close>) is
    modelled over exact reals: rounding, signed zeros and overflow of IEEE doubles are
    outside this model. It carries the properties of control flow, order and sign.

  \<^item> Spawning and the pairwise collision response are modelled a second time over IEEE
    754 binary64 numbers with rounding to nearest, ties to even (\<open>createRockD\<close>,
    \<open>resolvePairD\<close>). It carries the properties that depend on rounding and overflow.

  A rock holds finite numbers. Where JavaScript would store \<open>NaN\<close> or \<open>Infinity\<close> in a
  rock, both models return the error \<open>NonFinite\<close>.
\<close>

subsection \<open>Data model\<close>

datatype rockType = granite | marble | obsidian | sandstone

record material =
  color :: string
  density :: real
  bounce :: real

text \<open>The table \<open>ROCK_TYPES\<close> (lines 20--25).\<close>

definition ROCK_TYPES :: "rockType \<Rightarrow> material" where
  "ROCK_TYPES t =
     (case t of
        granite \<Rightarrow> \<lparr>color = ''#8B7355'', density = 1.2, bounce = 0.6\<rparr>
      | marble \<Rightarrow> \<lparr>color = ''#F5F5DC'', density = 1.0, bounce = 0.7\<rparr>
      | obsidian \<Rightarrow> \<lparr>color = ''#36454F'', density = 1.5, bounce = 0.5\<rparr>
      | sandstone \<Rightarrow> \<lparr>color = ''#FAD5A5'', density = 0.8, bounce = 0.8\<rparr>)"

text \<open>
  The interface \<open>Rock\<close> (lines 6--18). The field \<open>rock.x\<close> of the source is the
  selector \<open>rock_x\<close>, and so on for every field.
\<close>

record rock =
  rock_id :: real
  rock_x :: real
  rock_y :: real
  rock_vx :: real
  rock_vy :: real
  rock_radius :: real
  rock_color :: string
  rock_rotation :: real
  rock_rotationSpeed :: real
  rock_mass :: real
  rock_type :: rockType

record canvas =
  canvas_width :: real
  canvas_height :: real

text \<open>
  The component's mutable state: the rock array behind \<open>rocksRef\<close>, the canvas behind
  \<open>canvasRef\<close> (\<open>None\<close> while it is \<open>null\<close>), and the React state \<open>isPlaying\<close> and
  \<open>rockCount\<close>.
\<close>

record sim =
  rocksRef :: "rock list"
  canvasRef :: "canvas option"
  isPlaying :: bool
  rockCount :: nat

datatype error = TypeError | NonFinite

text \<open>
  What one call of \<open>createRock\<close> reads from its environment: \<open>Date.now()\<close> and the
  four results of \<open>Math.random()\<close>, in the order of the calls (lines 37, 38, 41, 49).
\<close>

record draws =
  d_type :: real
  d_radius :: real
  d_now :: real
  d_id :: real
  d_rot :: real

text \<open>\<open>Math.random()\<close> returns a number in \<open>[0, 1)\<close>.\<close>

definition unit_draw :: "real \<Rightarrow> bool" where
  "unit_draw u = (0 \<le> u \<and> u < 1)"

definition random_draws :: "draws \<Rightarrow> bool" where
  "random_draws ds =
     (unit_draw (d_type ds) \<and> unit_draw (d_radius ds) \<and> unit_draw (d_id ds) \<and> unit_draw (d_rot ds))"

subsection \<open>Spawning, clearing, pausing\<close>

text \<open>
  \<open>createRock\<close> (lines 35--56). \<open>Object.keys(ROCK_TYPES)\<close> lists the keys in insertion
  order. An index outside the array reads \<open>undefined\<close>, and \<open>ROCK_TYPES[undefined].color\<close>
  throws a \<open>TypeError\<close>.
\<close>

definition createRock :: "draws \<Rightarrow> real \<Rightarrow> real \<Rightarrow> real \<Rightarrow> real \<Rightarrow> sim \<Rightarrow> error + sim" where
  "createRock ds x y vx vy s =
     (let types = [granite, marble, obsidian, sandstone];
          k = \<lfloor>d_type ds * real (length types)\<rfloor>
      in if k < 0 \<or> int (length types) \<le> k then Inl TypeError
         else
           let type = types ! nat k;
               radius = 15 + d_radius ds * 25;
               rock = \<lparr>rock_id = d_now ds + d_id ds,
                       rock_x = x,
                       rock_y = y,
                       rock_vx = vx,
                       rock_vy = vy,
                       rock_radius = radius,
                       rock_color = color (ROCK_TYPES type),
                       rock_rotation = 0,
                       rock_rotationSpeed = (d_rot ds - 0.5) * 0.1,
                       rock_mass = radius * density (ROCK_TYPES type),
                       rock_type = type\<rparr>;
               rocks = rocksRef s @ [rock]
           in Inr (s\<lparr>rocksRef := rocks, rockCount := length rocks\<rparr>))"

text \<open>\<open>clearRocks\<close> (lines 254--257).\<close>

definition clearRocks :: "sim \<Rightarrow> sim" where
  "clearRocks s = s\<lparr>rocksRef := [], rockCount := 0\<rparr>"

text \<open>The state setter of \<open>useState(true)\<close> (line 32) and \<open>togglePlayPause\<close> (lines 259--261).\<close>

definition setIsPlaying :: "bool \<Rightarrow> sim \<Rightarrow> sim" where
  "setIsPlaying b s = s\<lparr>isPlaying := b\<rparr>"

definition togglePlayPause :: "sim \<Rightarrow> sim" where
  "togglePlayPause s = setIsPlaying (\<not> isPlaying s) s"

subsection \<open>The physics step\<close>

definition gravity :: real where
  "gravity = 0.5"

definition friction :: real where
  "friction = 0.98"

definition airResistance :: real where
  "airResistance = 0.999"

text \<open>Gravity, air resistance, position and rotation update (lines 67--79).\<close>

definition integrate :: "rock \<Rightarrow> rock" where
  "integrate r =
     (let r1 = r\<lparr>rock_vy := rock_vy r + gravity\<rparr>;
          r2 = r1\<lparr>rock_vx := rock_vx r1 * airResistance\<rparr>;
          r3 = r2\<lparr>rock_vy := rock_vy r2 * airResistance\<rparr>;
          r4 = r3\<lparr>rock_x := rock_x r3 + rock_vx r3\<rparr>;
          r5 = r4\<lparr>rock_y := rock_y r4 + rock_vy r4\<rparr>
      in r5\<lparr>rock_rotation := rock_rotation r5 + rock_rotationSpeed r5\<rparr>)"

text \<open>The four wall tests, in the order of the source (lines 82--103).\<close>

definition bounceLeft :: "rock \<Rightarrow> rock" where
  "bounceLeft r =
     (if rock_x r - rock_radius r < 0
      then r\<lparr>rock_x := rock_radius r,
             rock_vx := - rock_vx r * bounce (ROCK_TYPES (rock_type r)),
             rock_rotationSpeed := rock_rotationSpeed r * (- 0.5)\<rparr>
      else r)"

definition bounceRight :: "canvas \<Rightarrow> rock \<Rightarrow> rock" where
  "bounceRight cv r =
     (if rock_x r + rock_radius r > canvas_width cv
      then r\<lparr>rock_x := canvas_width cv - rock_radius r,
             rock_vx := - rock_vx r * bounce (ROCK_TYPES (rock_type r)),
             rock_rotationSpeed := rock_rotationSpeed r * (- 0.5)\<rparr>
      else r)"

definition bounceCeiling :: "rock \<Rightarrow> rock" where
  "bounceCeiling r =
     (if rock_y r - rock_radius r < 0
      then r\<lparr>rock_y := rock_radius r,
             rock_vy := - rock_vy r * bounce (ROCK_TYPES (rock_type r))\<rparr>
      else r)"

definition bounceFloor :: "canvas \<Rightarrow> rock \<Rightarrow> rock" where
  "bounceFloor cv r =
     (if rock_y r + rock_radius r > canvas_height cv
      then r\<lparr>rock_y := canvas_height cv - rock_radius r,
             rock_vy := - rock_vy r * bounce (ROCK_TYPES (rock_type r)),
             rock_vx := rock_vx r * friction,
             rock_rotationSpeed := rock_rotationSpeed r * 0.9\<rparr>
      else r)"

definition wallBounce :: "canvas \<Rightarrow> rock \<Rightarrow> rock" where
  "wallBounce cv r = bounceFloor cv (bounceCeiling (bounceRight cv (bounceLeft r)))"

text \<open>
  \<open>Math.atan2(y, x)\<close> on reals; \<open>Math.atan2(0, 0)\<close> is \<open>0\<close> (both zeros are \<open>+0\<close>
  when they come from subtracting equal numbers).
\<close>

definition atan2 :: "real \<Rightarrow> real \<Rightarrow> real" where
  "atan2 y x =
     (if 0 < x then arctan (y / x)
      else if x < 0 then (if 0 \<le> y then arctan (y / x) + pi else arctan (y / x) - pi)
      else if 0 < y then pi / 2
      else if y < 0 then - pi / 2
      else 0)"

text \<open>
  One pass of the body of the inner loop (lines 107--136) for the rock of the callback
  and the rock \<open>other\<close>. The result holds both rocks and whether the test of line 113
  succeeded. A zero \<open>totalMass\<close> makes all four quotients \<open>NaN\<close> or \<open>Infinity\<close>.
\<close>

definition resolvePair :: "rock \<Rightarrow> rock \<Rightarrow> error + (rock \<times> rock \<times> bool)" where
  "resolvePair rock other =
     (let dx = rock_x other - rock_x rock;
          dy = rock_y other - rock_y rock;
          distance = sqrt (dx * dx + dy * dy);
          minDistance = rock_radius rock + rock_radius other
      in if distance < minDistance then
           let angle = atan2 dy dx;
               overlap = minDistance - distance;
               separationX = cos angle * overlap * 0.5;
               separationY = sin angle * overlap * 0.5;
               rock1 = rock\<lparr>rock_x := rock_x rock - separationX,
                            rock_y := rock_y rock - separationY\<rparr>;
               other1 = other\<lparr>rock_x := rock_x other + separationX,
                              rock_y := rock_y other + separationY\<rparr>;
               totalMass = rock_mass rock1 + rock_mass other1
           in if totalMass = 0 then Inl NonFinite
              else
                let rockNewVx = (rock_vx rock1 * (rock_mass rock1 - rock_mass other1)
                                  + 2 * rock_mass other1 * rock_vx other1) / totalMass;
                    rockNewVy = (rock_vy rock1 * (rock_mass rock1 - rock_mass other1)
                                  + 2 * rock_mass other1 * rock_vy other1) / totalMass;
                    otherNewVx = (rock_vx other1 * (rock_mass other1 - rock_mass rock1)
                                  + 2 * rock_mass rock1 * rock_vx rock1) / totalMass;
                    otherNewVy = (rock_vy other1 * (rock_mass other1 - rock_mass rock1)
                                  + 2 * rock_mass rock1 * rock_vy rock1) / totalMass
                in Inr (rock1\<lparr>rock_vx := rockNewVx * 0.8, rock_vy := rockNewVy * 0.8\<rparr>,
                        other1\<lparr>rock_vx := otherNewVx * 0.8, rock_vy := otherNewVy * 0.8\<rparr>,
                        True)
         else Inr (rock, other, False))"

text \<open>
  The inner loop \<open>for (let j = index + 1; j < rocksRef.current.length; j++)\<close>. Next to
  the array it returns the trace of the loop: one entry \<open>(index, j, hit)\<close> for every
  evaluation of the test of line 113, in the order of evaluation. The trace is not
  program state; nothing in the loop reads it. The callback runs the loop with
  \<open>index\<close> below the length of the array.
\<close>

type_synonym trace = "(nat \<times> nat \<times> bool) list"

function pairLoop :: "rock list \<Rightarrow> nat \<Rightarrow> nat \<Rightarrow> error + (rock list \<times> trace)" where
  "pairLoop rocks index j =
     (if j < length rocks then
        (case resolvePair (rocks ! index) (rocks ! j) of
           Inl e \<Rightarrow> Inl e
         | Inr (rock', other', hit) \<Rightarrow>
             (case pairLoop (rocks[index := rock', j := other']) index (Suc j) of
                Inl e \<Rightarrow> Inl e
              | Inr (rocks', tr) \<Rightarrow> Inr (rocks', (index, j, hit) # tr)))
      else Inr (rocks, []))"
  by pat_completeness auto
termination
  by (relation "measure (\<lambda>(rocks, index, j). length rocks - j)") auto

declare pairLoop.simps [simp del]

text \<open>
  \<open>rocksRef.current.forEach((rock, index) => ...)\<close> (lines 66--138), from \<open>index\<close> on.
  \<open>forEach\<close> reads the length \<open>n\<close> of the array once, before the first call.
\<close>

function forEachFrom :: "canvas \<Rightarrow> nat \<Rightarrow> rock list \<Rightarrow> nat \<Rightarrow> error + (rock list \<times> trace)" where
  "forEachFrom cv n rocks index =
     (if index < n then
        (let rock = wallBounce cv (integrate (rocks ! index))
         in case pairLoop (rocks[index := rock]) index (Suc index) of
              Inl e \<Rightarrow> Inl e
            | Inr (rocks', tr) \<Rightarrow>
                (case forEachFrom cv n rocks' (Suc index) of
                   Inl e \<Rightarrow> Inl e
                 | Inr (rocks'', tr') \<Rightarrow> Inr (rocks'', tr @ tr')))
      else Inr (rocks, []))"
  by pat_completeness auto
termination
  by (relation "measure (\<lambda>(cv, n, rocks, index). n - index)") auto

declare forEachFrom.simps [simp del]

text \<open>\<open>updatePhysics\<close> (lines 58--139): nothing happens while the canvas is \<open>null\<close>.\<close>

definition updatePhysics :: "sim \<Rightarrow> error + (sim \<times> trace)" where
  "updatePhysics s =
     (case canvasRef s of
        None \<Rightarrow> Inr (s, [])
      | Some cv \<Rightarrow>
          (case forEachFrom cv (length (rocksRef s)) (rocksRef s) 0 of
             Inl e \<Rightarrow> Inl e
           | Inr (rocks', tr) \<Rightarrow> Inr (s\<lparr>rocksRef := rocks'\<rparr>, tr)))"

text \<open>
  What one frame of \<open>animate\<close> (lines 181--215) does to the state: the physics step,
  when playing (lines 195--197). Drawing reads the rocks and changes none of them. A
  canvas that exists is taken to have its 2D context.
\<close>

definition animate :: "sim \<Rightarrow> error + sim" where
  "animate s =
     (if canvasRef s = None then Inr s
      else if isPlaying s then
        (case updatePhysics s of Inl e \<Rightarrow> Inl e | Inr (s', tr) \<Rightarrow> Inr s')
      else Inr s)"

text \<open>\<open>n\<close> frames in a row.\<close>

fun frames :: "nat \<Rightarrow> sim \<Rightarrow> error + sim" where
  "frames 0 s = Inr s"
| "frames (Suc n) s = (case animate s of Inl e \<Rightarrow> Inl e | Inr s' \<Rightarrow> frames n s')"

subsection \<open>IEEE doubles\<close>

text \<open>
  A JavaScript number is an IEEE 754 binary64 value: a finite double, an infinity or
  \<open>NaN\<close>. A finite double is the real number it denotes, so the two zeros are one value.
\<close>

datatype jsnum = Fin real | PosInf | NegInf | NaN

text \<open>The integer nearest to \<open>q\<close>; a tie goes to the even one.\<close>

definition roundEven :: "real \<Rightarrow> int" where
  "roundEven q =
     (let n = \<lfloor>q\<rfloor>; d = q - of_int n
      in if d < 1 / 2 then n
         else if 1 / 2 < d then n + 1
         else if even n then n else n + 1)"

text \<open>
  The exponent of the binade of \<open>x\<close> (all subnormal numbers share the exponent \<open>-1022\<close>)
  and the spacing of the doubles in that binade: the significand has 53 bits.
\<close>

definition binade :: "real \<Rightarrow> int" where
  "binade x = max \<lfloor>log 2 \<bar>x\<bar>\<rfloor> (- 1022)"

definition ulp :: "real \<Rightarrow> real" where
  "ulp x = 2 powi (binade x - 52)"

text \<open>Rounding to nearest, ties to even, before the test for overflow.\<close>

definition nearest :: "real \<Rightarrow> real" where
  "nearest x = (if x = 0 then 0 else of_int (roundEven (x / ulp x)) * ulp x)"

text \<open>\<open>Number.MAX_VALUE\<close>.\<close>

definition maxDouble :: real where
  "maxDouble = (2 ^ 53 - 1) * 2 ^ 971"

text \<open>
  The result of an arithmetic operation whose exact value is \<open>x\<close>: the nearest double, or
  an infinity when that exceeds \<open>Number.MAX_VALUE\<close>.
\<close>

definition rd :: "real \<Rightarrow> jsnum" where
  "rd x =
     (let y = nearest x
      in if maxDouble < y then PosInf else if y < - maxDouble then NegInf else Fin y)"

text \<open>The finite doubles.\<close>

definition isDouble :: "real \<Rightarrow> bool" where
  "isDouble x = (nearest x = x \<and> \<bar>x\<bar> \<le> maxDouble)"

text \<open>A decimal literal of the source denotes the nearest double.\<close>

definition lit :: "real \<Rightarrow> jsnum" where
  "lit x = rd x"

text \<open>
  Negation, \<open>+\<close>, \<open>-\<close>, \<open>*\<close>, \<open>/\<close>, \<open><\<close>, \<open>Math.sqrt\<close> and \<open>Math.floor\<close> on JavaScript numbers.
  A zero divisor counts as \<open>+0\<close>.
\<close>

fun jneg :: "jsnum \<Rightarrow> jsnum" where
  "jneg (Fin x) = Fin (- x)"
| "jneg PosInf = NegInf"
| "jneg NegInf = PosInf"
| "jneg NaN = NaN"

fun jadd :: "jsnum \<Rightarrow> jsnum \<Rightarrow> jsnum" where
  "jadd (Fin x) (Fin y) = rd (x + y)"
| "jadd NaN b = NaN"
| "jadd a NaN = NaN"
| "jadd PosInf NegInf = NaN"
| "jadd NegInf PosInf = NaN"
| "jadd PosInf b = PosInf"
| "jadd a PosInf = PosInf"
| "jadd NegInf b = NegInf"
| "jadd a NegInf = NegInf"

definition jsub :: "jsnum \<Rightarrow> jsnum \<Rightarrow> jsnum" where
  "jsub a b = jadd a (jneg b)"

text \<open>The infinity with the sign of \<open>x\<close>, for \<open>x\<close> not zero.\<close>

definition infinity :: "real \<Rightarrow> jsnum" where
  "infinity x = (if 0 < x then PosInf else NegInf)"

fun jmul :: "jsnum \<Rightarrow> jsnum \<Rightarrow> jsnum" where
  "jmul (Fin x) (Fin y) = rd (x * y)"
| "jmul NaN b = NaN"
| "jmul a NaN = NaN"
| "jmul (Fin x) PosInf = (if x = 0 then NaN else infinity x)"
| "jmul (Fin x) NegInf = (if x = 0 then NaN else infinity (- x))"
| "jmul PosInf (Fin y) = (if y = 0 then NaN else infinity y)"
| "jmul NegInf (Fin y) = (if y = 0 then NaN else infinity (- y))"
| "jmul PosInf PosInf = PosInf"
| "jmul NegInf NegInf = PosInf"
| "jmul PosInf NegInf = NegInf"
| "jmul NegInf PosInf = NegInf"

fun jdiv :: "jsnum \<Rightarrow> jsnum \<Rightarrow> jsnum" where
  "jdiv (Fin x) (Fin y) =
     (if y = 0 then (if x = 0 then NaN else infinity x) else rd (x / y))"
| "jdiv NaN b = NaN"
| "jdiv a NaN = NaN"
| "jdiv (Fin x) PosInf = Fin 0"
| "jdiv (Fin x) NegInf = Fin 0"
| "jdiv PosInf (Fin y) = (if 0 \<le> y then PosInf else NegInf)"
| "jdiv NegInf (Fin y) = (if 0 \<le> y then NegInf else PosInf)"
| "jdiv PosInf b = NaN"
| "jdiv NegInf b = NaN"

fun jsqrt :: "jsnum \<Rightarrow> jsnum" where
  "jsqrt (Fin x) = (if x < 0 then NaN else rd (sqrt x))"
| "jsqrt PosInf = PosInf"
| "jsqrt NegInf = NaN"
| "jsqrt NaN = NaN"

fun jlt :: "jsnum \<Rightarrow> jsnum \<Rightarrow> bool" where
  "jlt (Fin x) (Fin y) = (x < y)"
| "jlt NaN b = False"
| "jlt a NaN = False"
| "jlt PosInf b = False"
| "jlt a NegInf = False"
| "jlt a PosInf = True"
| "jlt NegInf b = True"

fun jfloor :: "jsnum \<Rightarrow> jsnum" where
  "jfloor (Fin x) = Fin (of_int \<lfloor>x\<rfloor>)"
| "jfloor a = a"

text \<open>
  \<open>Math.atan2\<close>, \<open>Math.cos\<close> and \<open>Math.sin\<close>, taken as correctly rounded. The properties
  below use their values only at the angle 0 (\<open>atan2(0, x) = 0\<close> for \<open>x \<ge> 0\<close>, \<open>cos 0 = 1\<close>
  and \<open>sin 0 = 0\<close>), where every implementation is exact.
\<close>

fun jatan2 :: "jsnum \<Rightarrow> jsnum \<Rightarrow> jsnum" where
  "jatan2 (Fin y) (Fin x) = rd (atan2 y x)"
| "jatan2 NaN b = NaN"
| "jatan2 a NaN = NaN"
| "jatan2 PosInf PosInf = rd (pi / 4)"
| "jatan2 PosInf NegInf = rd (3 * pi / 4)"
| "jatan2 NegInf PosInf = rd (- pi / 4)"
| "jatan2 NegInf NegInf = rd (- 3 * pi / 4)"
| "jatan2 PosInf (Fin x) = rd (pi / 2)"
| "jatan2 NegInf (Fin x) = rd (- pi / 2)"
| "jatan2 (Fin y) PosInf = Fin 0"
| "jatan2 (Fin y) NegInf = (if 0 \<le> y then rd pi else rd (- pi))"

fun jcos :: "jsnum \<Rightarrow> jsnum" where
  "jcos (Fin x) = rd (cos x)"
| "jcos a = NaN"

fun jsin :: "jsnum \<Rightarrow> jsnum" where
  "jsin (Fin x) = rd (sin x)"
| "jsin a = NaN"

text \<open>
  \<open>createRock\<close> (lines 35--56) in double arithmetic. The densities of \<open>ROCK_TYPES\<close> are
  decimal literals, hence the nearest doubles. An index that is not a number of the
  array reads \<open>undefined\<close>, and \<open>ROCK_TYPES[undefined].color\<close> throws a \<open>TypeError\<close>.
\<close>

definition createRockD :: "draws \<Rightarrow> real \<Rightarrow> real \<Rightarrow> real \<Rightarrow> real \<Rightarrow> sim \<Rightarrow> error + sim" where
  "createRockD ds x y vx vy s =
     (let types = [granite, marble, obsidian, sandstone];
          k = jfloor (jmul (Fin (d_type ds)) (Fin (real (length types))))
      in case k of
           Fin i \<Rightarrow>
             if i < 0 \<or> real (length types) \<le> i then Inl TypeError
             else
               let type = types ! nat \<lfloor>i\<rfloor>;
                   radius = jadd (lit 15) (jmul (Fin (d_radius ds)) (lit 25))
               in (case (jadd (Fin (d_now ds)) (Fin (d_id ds)),
                         radius,
                         jmul (jsub (Fin (d_rot ds)) (lit 0.5)) (lit 0.1),
                         jmul radius (lit (density (ROCK_TYPES type)))) of
                     (Fin ident, Fin r, Fin spin, Fin mass) \<Rightarrow>
                       let rock = \<lparr>rock_id = ident,
                                   rock_x = x,
                                   rock_y = y,
                                   rock_vx = vx,
                                   rock_vy = vy,
                                   rock_radius = r,
                                   rock_color = color (ROCK_TYPES type),
                                   rock_rotation = 0,
                                   rock_rotationSpeed = spin,
                                   rock_mass = mass,
                                   rock_type = type\<rparr>;
                           rocks = rocksRef s @ [rock]
                       in Inr (s\<lparr>rocksRef := rocks, rockCount := length rocks\<rparr>)
                   | _ \<Rightarrow> Inl NonFinite)
         | _ \<Rightarrow> Inl TypeError)"

text \<open>
  One pass of the body of the inner loop (lines 107--136) in double arithmetic. The
  positions are assigned at lines 120--123 and the velocities at lines 132--135; the
  result is \<open>NonFinite\<close> when one of the eight numbers stored is \<open>NaN\<close> or an infinity.
\<close>

definition resolvePairD :: "rock \<Rightarrow> rock \<Rightarrow> error + (rock \<times> rock \<times> bool)" where
  "resolvePairD rock other =
     (let dx = jsub (Fin (rock_x other)) (Fin (rock_x rock));
          dy = jsub (Fin (rock_y other)) (Fin (rock_y rock));
          distance = jsqrt (jadd (jmul dx dx) (jmul dy dy));
          minDistance = jadd (Fin (rock_radius rock)) (Fin (rock_radius other))
      in if jlt distance minDistance then
           let angle = jatan2 dy dx;
               overlap = jsub minDistance distance;
               separationX = jmul (jmul (jcos angle) overlap) (lit 0.5);
               separationY = jmul (jmul (jsin angle) overlap) (lit 0.5);
               rockX = jsub (Fin (rock_x rock)) separationX;
               rockY = jsub (Fin (rock_y rock)) separationY;
               otherX = jadd (Fin (rock_x other)) separationX;
               otherY = jadd (Fin (rock_y other)) separationY;
               totalMass = jadd (Fin (rock_mass rock)) (Fin (rock_mass other));
               rockNewVx = jdiv (jadd (jmul (Fin (rock_vx rock))
                                         (jsub (Fin (rock_mass rock)) (Fin (rock_mass other))))
                                      (jmul (jmul (lit 2) (Fin (rock_mass other)))
                                         (Fin (rock_vx other))))
                                totalMass;
               rockNewVy = jdiv (jadd (jmul (Fin (rock_vy rock))
                                         (jsub (Fin (rock_mass rock)) (Fin (rock_mass other))))
                                      (jmul (jmul (lit 2) (Fin (rock_mass other)))
                                         (Fin (rock_vy other))))
                                totalMass;
               otherNewVx = jdiv (jadd (jmul (Fin (rock_vx other))
                                          (jsub (Fin (rock_mass other)) (Fin (rock_mass rock))))
                                       (jmul (jmul (lit 2) (Fin (rock_mass rock)))
                                          (Fin (rock_vx rock))))
                                 totalMass;
               otherNewVy = jdiv (jadd (jmul (Fin (rock_vy other))
                                          (jsub (Fin (rock_mass other)) (Fin (rock_mass rock))))
                                       (jmul (jmul (lit 2) (Fin (rock_mass rock)))
                                          (Fin (rock_vy rock))))
                                 totalMass
           in (case (rockX, rockY, otherX, otherY,
                     jmul rockNewVx (lit 0.8), jmul rockNewVy (lit 0.8),
                     jmul otherNewVx (lit 0.8), jmul otherNewVy (lit 0.8)) of
                 (Fin rx, Fin ry, Fin ox, Fin oy, Fin rvx, Fin rvy, Fin ovx, Fin ovy) \<Rightarrow>
                   Inr (rock\<lparr>rock_x := rx, rock_y := ry, rock_vx := rvx, rock_vy := rvy\<rparr>,
                        other\<lparr>rock_x := ox, rock_y := oy, rock_vx := ovx, rock_vy := ovy\<rparr>,
                        True)
               | _ \<Rightarrow> Inl NonFinite)
         else Inr (rock, other, False))"

subsection \<open>Notions of the specification\<close>


definition momentumX :: "rock \<Rightarrow> real" where
  "momentumX r = rock_mass r * rock_vx r"

definition momentumY :: "rock \<Rightarrow> real" where
  "momentumY r = rock_mass r * rock_vy r"

text \<open>The invariant of the data model: radius and mass are positive.\<close>

definition wellFormed :: "rock \<Rightarrow> bool" where
  "wellFormed r = (0 < rock_radius r \<and> 0 < rock_mass r)"



text \<open>The fields of a rock that no operation of the simulation assigns after creation.\<close>

definition fixedPart :: "rock \<Rightarrow> real \<times> real \<times> real \<times> string \<times> rockType" where
  "fixedPart r = (rock_id r, rock_radius r, rock_mass r, rock_color r, rock_type r)"

text \<open>The pair of indices of a trace entry.\<close>

definition checkedPair :: "nat \<times> nat \<times> bool \<Rightarrow> nat \<times> nat" where
  "checkedPair e = (fst e, fst (snd e))"

text \<open>
  The pairs \<open>(i, j)\<close> with \<open>index \<le> i < j < n\<close>, by ascending \<open>i\<close> and, for equal \<open>i\<close>,
  ascending \<open>j\<close>.
\<close>

definition pairsFrom :: "nat \<Rightarrow> nat \<Rightarrow> (nat \<times> nat) list" where
  "pairsFrom index n = concat (map (\<lambda>i. map (Pair i) [Suc i..<n]) [index..<n])"

definition allPairs :: "nat \<Rightarrow> (nat \<times> nat) list" where
  "allPairs n = pairsFrom 0 n"

text \<open>Ascending index order on pairs, and the unordered pair of an ordered one.\<close>

definition pairBefore :: "nat \<times> nat \<Rightarrow> nat \<times> nat \<Rightarrow> bool" where
  "pairBefore p q = (fst p < fst q \<or> (fst p = fst q \<and> snd p < snd q))"

definition unordered :: "nat \<times> nat \<Rightarrow> nat set" where
  "unordered p = {fst p, snd p}"

text \<open>The four wall tests of lines 82, 87, 94 and 98 are all false for the rock.\<close>

definition noWallHit :: "canvas \<Rightarrow> rock \<Rightarrow> bool" where
  "noWallHit cv r =
     (\<not> rock_x r - rock_radius r < 0 \<and> \<not> rock_x r + rock_radius r > canvas_width cv \<and>
      \<not> rock_y r - rock_radius r < 0 \<and> \<not> rock_y r + rock_radius r > canvas_height cv)"

text \<open>
  One spawn request: what \<open>createRock\<close> reads from its environment, and its four
  arguments. \<open>spawns\<close> runs a sequence of calls of \<open>createRock\<close>, and \<open>spawnId\<close> is the
  value of \<open>Date.now() + Math.random()\<close> (line 41) in a request.
\<close>

type_synonym request = "draws \<times> real \<times> real \<times> real \<times> real"

fun spawns :: "request list \<Rightarrow> sim \<Rightarrow> error + sim" where
  "spawns [] s = Inr s"
| "spawns ((ds, x, y, vx, vy) # qs) s =
     (case createRock ds x y vx vy s of Inl e \<Rightarrow> Inl e | Inr s' \<Rightarrow> spawns qs s')"

definition spawnId :: "request \<Rightarrow> real" where
  "spawnId q = d_now (fst q) + d_id (fst q)"

text \<open>
  What one call of \<open>createRock\<close> reads when every \<open>Math.random()\<close> result is a double in
  \<open>[0, 1)\<close> and \<open>Date.now()\<close> is a double of magnitude at most \<open>2\<^sup>5\<^sup>3\<close> (a time value is an
  integer of at most \<open>8.64 * 10\<^sup>1\<^sup>5\<close> in magnitude).
\<close>

definition double_draws :: "draws \<Rightarrow> bool" where
  "double_draws ds =
     (random_draws ds \<and> isDouble (d_type ds) \<and> isDouble (d_radius ds) \<and> isDouble (d_id ds) \<and>
      isDouble (d_rot ds) \<and> isDouble (d_now ds) \<and> \<bar>d_now ds\<bar> \<le> 2 ^ 53)"

text \<open>
  Rocks far from the overflow threshold. \<open>moderateMotion\<close>: the velocity components
  have magnitude at most \<open>2\<^sup>1\<^sup>0\<^sup>0\<^sup>0\<close> and the mass lies between 1 and 64. \<open>moderate\<close>: also the
  coordinates are doubles of magnitude at most \<open>2\<^sup>1\<^sup>0\<^sup>0\<^sup>0\<close> and the radius lies between 1 and
  64. (\<open>createRock\<close> gives radii in \<open>[15, 40]\<close> and masses in \<open>[12, 60]\<close>.)
\<close>

definition moderateMotion :: "rock \<Rightarrow> bool" where
  "moderateMotion r =
     (\<bar>rock_vx r\<bar> \<le> 2 ^ 1000 \<and> \<bar>rock_vy r\<bar> \<le> 2 ^ 1000 \<and>
      1 \<le> rock_mass r \<and> rock_mass r \<le> 64)"

definition moderate :: "rock \<Rightarrow> bool" where
  "moderate r =
     (isDouble (rock_x r) \<and> isDouble (rock_y r) \<and>
      \<bar>rock_x r\<bar> \<le> 2 ^ 1000 \<and> \<bar>rock_y r\<bar> \<le> 2 ^ 1000 \<and>
      1 \<le> rock_radius r \<and> rock_radius r \<le> 64 \<and> moderateMotion r)"

text \<open>The y momentum of a pair of rocks, \<open>m1 * v1 + m2 * v2\<close>, as JavaScript computes it.\<close>

definition momentumYD :: "rock \<Rightarrow> rock \<Rightarrow> jsnum" where
  "momentumYD a b =
     jadd (jmul (Fin (rock_mass a)) (Fin (rock_vy a))) (jmul (Fin (rock_mass b)) (Fin (rock_vy b)))"

subsection \<open>Example inputs\<close>

text \<open>Draws that are doubles; the second set has the largest double below 1 for the radius.\<close>

definition c3_dbl_draws :: draws where
  "c3_dbl_draws = \<lparr>d_type = 5 / 8, d_radius = 3 / 8, d_now = 1700000000000, d_id = 1 / 4,
     d_rot = 3 / 4\<rparr>"

definition c3_top_draws :: draws where
  "c3_top_draws = \<lparr>d_type = 5 / 8, d_radius = 1 - 1 / 2 ^ 53, d_now = 1700000000000,
     d_id = 1 / 4, d_rot = 3 / 4\<rparr>"

definition c3_top_rock :: rock where
  "c3_top_rock = \<lparr>rock_id = 1700000000000 + 1 / 4, rock_x = 50, rock_y = - 50, rock_vx = 3,
     rock_vy = 1, rock_radius = 40, rock_color = ''#36454F'', rock_rotation = 0,
     rock_rotationSpeed = 7205759403792794 / 2 ^ 58, rock_mass = 60, rock_type = obsidian\<rparr>"

definition c3_sim :: sim where
  "c3_sim = \<lparr>rocksRef = [], canvasRef = Some \<lparr>canvas_width = 800, canvas_height = 600\<rparr>,
             isPlaying = True, rockCount = 0\<rparr>"






text \<open>Three rocks in a row; the first two overlap.\<close>

definition c6_canvas :: canvas where
  "c6_canvas = \<lparr>canvas_width = 400, canvas_height = 400\<rparr>"

definition c6_rockA :: rock where
  "c6_rockA = \<lparr>rock_id = 1, rock_x = 100, rock_y = 100, rock_vx = 0, rock_vy = - 0.5,
     rock_radius = 20, rock_color = ''#8B7355'', rock_rotation = 0, rock_rotationSpeed = 0,
     rock_mass = 24, rock_type = granite\<rparr>"

definition c6_rockB :: rock where
  "c6_rockB = \<lparr>rock_id = 2, rock_x = 130, rock_y = 100, rock_vx = 0, rock_vy = - 0.5,
     rock_radius = 20, rock_color = ''#8B7355'', rock_rotation = 0, rock_rotationSpeed = 0,
     rock_mass = 24, rock_type = granite\<rparr>"

definition c6_rockC :: rock where
  "c6_rockC = \<lparr>rock_id = 3, rock_x = 300, rock_y = 100, rock_vx = 0, rock_vy = - 0.5,
     rock_radius = 20, rock_color = ''#8B7355'', rock_rotation = 0, rock_rotationSpeed = 0,
     rock_mass = 24, rock_type = granite\<rparr>"

definition c6_sim :: sim where
  "c6_sim = \<lparr>rocksRef = [c6_rockA, c6_rockB, c6_rockC], canvasRef = Some c6_canvas,
     isPlaying = True, rockCount = 3\<rparr>"

definition c6_after :: sim where
  "c6_after = c6_sim\<lparr>rocksRef :=
     [c6_rockA\<lparr>rock_x := 95, rock_vy := - 0.4\<rparr>,
      c6_rockB\<lparr>rock_x := 135, rock_y := 100.4995, rock_vy := 0.4995\<rparr>,
      c6_rockC\<lparr>rock_vy := 0\<rparr>]\<rparr>"

definition c6_trace :: trace where
  "c6_trace = [(0, 1, True), (0, 2, False), (1, 2, False)]"

text \<open>A running simulation with one marble rock in flight.\<close>

definition c5_sim :: sim where
  "c5_sim = \<lparr>rocksRef = [\<lparr>rock_id = 7, rock_x = 200, rock_y = 50, rock_vx = 3, rock_vy = 1,
       rock_radius = 25, rock_color = ''#F5F5DC'', rock_rotation = 0, rock_rotationSpeed = 0.02,
       rock_mass = 25, rock_type = marble\<rparr>],
     canvasRef = Some \<lparr>canvas_width = 800, canvas_height = 600\<rparr>,
     isPlaying = True, rockCount = 1\<rparr>"

definition c8_sim :: sim where
  "c8_sim = \<lparr>rocksRef = [\<lparr>rock_id = 9, rock_x = 100, rock_y = 80, rock_vx = - 2, rock_vy = 0,
       rock_radius = 30, rock_color = ''#36454F'', rock_rotation = 0, rock_rotationSpeed = 0.01,
       rock_mass = 45, rock_type = obsidian\<rparr>],
     canvasRef = Some \<lparr>canvas_width = 800, canvas_height = 600\<rparr>,
     isPlaying = True, rockCount = 1\<rparr>"






text \<open>
  Two overlapping rocks of different mass in the open, and what the collision response
  stores for them in double arithmetic.
\<close>

definition c10_dblA :: rock where
  "c10_dblA = \<lparr>rock_id = 1, rock_x = 100, rock_y = 100, rock_vx = 5, rock_vy = 0,
     rock_radius = 20, rock_color = ''#F5F5DC'', rock_rotation = 0, rock_rotationSpeed = 0,
     rock_mass = 20, rock_type = marble\<rparr>"

definition c10_dblB :: rock where
  "c10_dblB = \<lparr>rock_id = 2, rock_x = 130, rock_y = 100, rock_vx = 0, rock_vy = 5,
     rock_radius = 20, rock_color = ''#36454F'', rock_rotation = 0, rock_rotationSpeed = 0,
     rock_mass = 30, rock_type = obsidian\<rparr>"

definition c10_dblA' :: rock where
  "c10_dblA' = c10_dblA\<lparr>rock_x := 95, rock_y := 100,
     rock_vx := - (7205759403792794 / 2 ^ 53), rock_vy := 5404319552844596 / 2 ^ 50\<rparr>"

definition c10_dblB' :: rock where
  "c10_dblB' = c10_dblB\<lparr>rock_x := 135, rock_y := 100,
     rock_vx := 7205759403792794 / 2 ^ 51, rock_vy := 7205759403792794 / 2 ^ 53\<rparr>"




text \<open>
  The scenario of one granite rock of radius 20 spawned at rest at \<open>(100, 100)\<close> on a
  400 by 400 canvas.
\<close>

definition c7_draws :: draws where
  "c7_draws = \<lparr>d_type = 0.1, d_radius = 0.2, d_now = 1700000000000, d_id = 0.5, d_rot = 0.5\<rparr>"

definition c7_empty :: sim where
  "c7_empty = \<lparr>rocksRef = [], canvasRef = Some \<lparr>canvas_width = 400, canvas_height = 400\<rparr>,
     isPlaying = True, rockCount = 0\<rparr>"

definition c7_rock :: rock where
  "c7_rock = \<lparr>rock_id = 1700000000000.5, rock_x = 100, rock_y = 100, rock_vx = 0, rock_vy = 0,
     rock_radius = 20, rock_color = ''#8B7355'', rock_rotation = 0, rock_rotationSpeed = 0,
     rock_mass = 24, rock_type = granite\<rparr>"

definition c7_spawned :: sim where
  "c7_spawned = c7_empty\<lparr>rocksRef := [c7_rock], rockCount := 1\<rparr>"

definition c7_stepped :: sim where
  "c7_stepped = c7_spawned\<lparr>rocksRef := [c7_rock\<lparr>rock_y := 100.4995, rock_vy := 0.4995\<rparr>]\<rparr>"

text \<open>
  Three spawn requests; the first two read the same clock value and the same random
  number for the id.
\<close>

definition c9_empty :: sim where
  "c9_empty = \<lparr>rocksRef = [], canvasRef = Some \<lparr>canvas_width = 800, canvas_height = 600\<rparr>,
     isPlaying = True, rockCount = 0\<rparr>"

definition c9_first :: request where
  "c9_first = (\<lparr>d_type = 0.1, d_radius = 0.2, d_now = 1700000000000, d_id = 0.5, d_rot = 0.3\<rparr>,
     10, 10, 0, 0)"

definition c9_second :: request where
  "c9_second = (\<lparr>d_type = 0.6, d_radius = 0.7, d_now = 1700000000000, d_id = 0.5, d_rot = 0.8\<rparr>,
     200, 50, 1, 1)"

definition c9_third :: request where
  "c9_third = (\<lparr>d_type = 0.9, d_radius = 0.4, d_now = 1700000000500, d_id = 0.25, d_rot = 0.1\<rparr>,
     300, - 50, 2, 3)"

section \<open>Properties\<close>

subsection \<open>The material table\<close>

lemma density_pos: "0 < density (ROCK_TYPES t)"
  by (cases t) (simp_all add: ROCK_TYPES_def)


subsection \<open>Frames of a paused, an empty and a one-rock simulation\<close>

lemma pairLoop_done: "length rocks \<le> j \<Longrightarrow> pairLoop rocks index j = Inr (rocks, [])"
  by (simp add: pairLoop.simps)

lemma forEachFrom_done: "n \<le> index \<Longrightarrow> forEachFrom cv n rocks index = Inr (rocks, [])"
  by (simp add: forEachFrom.simps)

lemma updatePhysics_empty: "rocksRef s = [] \<Longrightarrow> updatePhysics s = Inr (s, [])"
  by (simp add: updatePhysics_def forEachFrom_done split: option.splits)

lemma animate_empty: "rocksRef s = [] \<Longrightarrow> animate s = Inr s"
  by (simp add: animate_def updatePhysics_empty)

lemma animate_paused: "\<not> isPlaying s \<Longrightarrow> animate s = Inr s"
  by (simp add: animate_def)

lemma frames_fixed: "animate s = Inr s \<Longrightarrow> frames n s = Inr s"
  by (induction n) simp_all

text \<open>
  C5. After the simulation is paused, any number of frames leaves the whole state, and
  so every field of every rock, unchanged.
\<close>

theorem paused_frames_unchanged:
  "frames n (setIsPlaying False s) = Inr (setIsPlaying False s)
   \<and> rocksRef (setIsPlaying False s) = rocksRef s"
  by (simp add: frames_fixed animate_paused setIsPlaying_def)

theorem paused_frames_unchanged_witness:
  "frames 5 (setIsPlaying False c5_sim) = Inr (setIsPlaying False c5_sim)
   \<and> rocksRef (setIsPlaying False c5_sim) = rocksRef c5_sim"
  using paused_frames_unchanged [of 5 c5_sim] by simp

text \<open>
  C8. After \<open>clearRocks\<close> the count is 0 and the collection is empty; the physics step
  and any number of frames return the cleared state, with no error.
\<close>

theorem clear_then_step:
  "rockCount (clearRocks s) = 0 \<and> length (rocksRef (clearRocks s)) = 0
   \<and> updatePhysics (clearRocks s) = Inr (clearRocks s, [])
   \<and> frames n (clearRocks s) = Inr (clearRocks s)"
  by (simp add: frames_fixed animate_empty updatePhysics_empty clearRocks_def)

theorem clear_then_step_witness:
  "rockCount (clearRocks c8_sim) = 0 \<and> length (rocksRef (clearRocks c8_sim)) = 0
   \<and> updatePhysics (clearRocks c8_sim) = Inr (clearRocks c8_sim, [])
   \<and> frames 5 (clearRocks c8_sim) = Inr (clearRocks c8_sim)"
  using clear_then_step [of c8_sim 5] by simp

lemma updatePhysics_single:
  assumes "rocksRef s = [r]" "canvasRef s = Some cv"
  shows "updatePhysics s = Inr (s\<lparr>rocksRef := [wallBounce cv (integrate r)]\<rparr>, [])"
  using assms
  by (simp add: updatePhysics_def forEachFrom.simps [of _ "Suc 0" _ 0] pairLoop_done forEachFrom_done)

subsection \<open>The list of index pairs\<close>

lemma pairsFrom_unfold:
  "pairsFrom index n =
     (if index < n then map (Pair index) [Suc index..<n] @ pairsFrom (Suc index) n else [])"
  by (simp add: pairsFrom_def upt_conv_Cons)

lemma set_pairsFrom: "set (pairsFrom index n) = {(a, b). index \<le> a \<and> a < b \<and> b < n}"
proof (intro set_eqI iffI)
  fix p
  assume "p \<in> set (pairsFrom index n)"
  then show "p \<in> {(a, b). index \<le> a \<and> a < b \<and> b < n}"
    by (auto simp add: pairsFrom_def)
next
  fix p
  assume "p \<in> {(a, b). index \<le> a \<and> a < b \<and> b < n}"
  then obtain a b where p: "p = (a, b)" and ab: "index \<le> a" "a < b" "b < n"
    by auto
  from ab have row: "a \<in> set [index..<n]"
    by simp
  from ab have "(a, b) \<in> set (map (Pair a) [Suc a..<n])"
    by simp
  with row have "(a, b) \<in> (\<Union>i \<in> set [index..<n]. set (map (Pair i) [Suc i..<n]))"
    by (rule UN_I)
  with p show "p \<in> set (pairsFrom index n)"
    by (simp add: pairsFrom_def)
qed

lemma sorted_pairsFrom: "sorted_wrt pairBefore (pairsFrom index n)"
proof (induction "n - index" arbitrary: index)
  case 0
  then show ?case by (simp add: pairsFrom_unfold [of index])
next
  case (Suc d)
  then have less: "index < n" and d: "d = n - Suc index"
    by simp_all
  have row: "sorted_wrt pairBefore (map (Pair index) [Suc index..<n])"
    by (simp add: sorted_wrt_map pairBefore_def)
  have across: "\<forall>p \<in> set (map (Pair index) [Suc index..<n]). \<forall>q \<in> set (pairsFrom (Suc index) n).
      pairBefore p q"
    by (auto simp add: set_pairsFrom pairBefore_def)
  from less row Suc.hyps(1) [OF d] across show ?case
    by (simp add: pairsFrom_unfold [of index] sorted_wrt_append)
qed

lemma sorted_wrt_irrefl_distinct:
  "sorted_wrt P xs \<Longrightarrow> \<forall>x. \<not> P x x \<Longrightarrow> distinct xs"
  by (induction xs) auto

lemma distinct_unordered_pairsFrom: "distinct (map unordered (pairsFrom index n))"
proof -
  have "distinct (pairsFrom index n)"
    using sorted_pairsFrom by (rule sorted_wrt_irrefl_distinct) (simp add: pairBefore_def)
  moreover have "inj_on unordered (set (pairsFrom index n))"
    by (auto simp add: inj_on_def set_pairsFrom unordered_def doubleton_eq_iff)
  ultimately show ?thesis
    by (simp add: distinct_map)
qed

subsection \<open>The loops of the physics step\<close>


lemma resolvePair_fixedPart:
  "resolvePair rock other = Inr (rock', other', hit) \<Longrightarrow>
     fixedPart rock' = fixedPart rock \<and> fixedPart other' = fixedPart other"
  by (auto simp add: resolvePair_def Let_def fixedPart_def split: if_splits)

lemma integrate_fixedPart: "fixedPart (integrate r) = fixedPart r"
  by (simp add: integrate_def Let_def fixedPart_def)

lemma wallBounce_fixedPart: "fixedPart (wallBounce cv r) = fixedPart r"
  by (simp add: wallBounce_def bounceLeft_def bounceRight_def bounceCeiling_def bounceFloor_def
      fixedPart_def)

lemma map_update_same: "f v = f (xs ! i) \<Longrightarrow> map f (xs[i := v]) = map f xs"
proof (cases "i < length xs")
  case True
  assume "f v = f (xs ! i)"
  with True have "(map f xs)[i := f v] = map f xs"
    by (simp add: list_update_same_conv)
  then show ?thesis by (simp add: map_update)
next
  case False
  then have "xs[i := v] = xs" by (simp add: not_less list_update_beyond)
  then show ?thesis by simp
qed

lemma pairLoop_step:
  assumes "j < length rocks" and "pairLoop rocks index j = Inr (rocks', tr)"
  obtains rock' other' hit tr1 where
    "resolvePair (rocks ! index) (rocks ! j) = Inr (rock', other', hit)"
    "pairLoop (rocks[index := rock', j := other']) index (Suc j) = Inr (rocks', tr1)"
    "tr = (index, j, hit) # tr1"
  using assms by (subst (asm) pairLoop.simps) (auto split: sum.splits)

lemma forEachFrom_step:
  assumes "index < n" and "forEachFrom cv n rocks index = Inr (rocks', tr)"
  obtains rocks1 tr1 tr2 where
    "pairLoop (rocks[index := wallBounce cv (integrate (rocks ! index))]) index (Suc index)
       = Inr (rocks1, tr1)"
    "forEachFrom cv n rocks1 (Suc index) = Inr (rocks', tr2)"
    "tr = tr1 @ tr2"
  using assms by (subst (asm) forEachFrom.simps) (auto simp add: Let_def split: sum.splits)

lemma pairLoop_length:
  "pairLoop rocks index j = Inr (rocks', tr) \<Longrightarrow> length rocks' = length rocks"
proof (induction rocks index j arbitrary: rocks' tr rule: pairLoop.induct)
  case (1 rocks index j)
  show ?case
  proof (cases "j < length rocks")
    case False
    with "1.prems" show ?thesis by (simp add: pairLoop_done)
  next
    case True
    from True "1.prems" obtain rock' other' hit tr1 where
      res: "resolvePair (rocks ! index) (rocks ! j) = Inr (rock', other', hit)" and
      rest: "pairLoop (rocks[index := rock', j := other']) index (Suc j) = Inr (rocks', tr1)"
      by (rule pairLoop_step)
    from "1.IH" [OF True res refl refl rest] show ?thesis by simp
  qed
qed

lemma pairLoop_trace:
  "pairLoop rocks index j = Inr (rocks', tr) \<Longrightarrow>
     map checkedPair tr = map (Pair index) [j..<length rocks]"
proof (induction rocks index j arbitrary: rocks' tr rule: pairLoop.induct)
  case (1 rocks index j)
  show ?case
  proof (cases "j < length rocks")
    case False
    with "1.prems" show ?thesis by (simp add: pairLoop_done)
  next
    case True
    from True "1.prems" obtain rock' other' hit tr1 where
      res: "resolvePair (rocks ! index) (rocks ! j) = Inr (rock', other', hit)" and
      rest: "pairLoop (rocks[index := rock', j := other']) index (Suc j) = Inr (rocks', tr1)" and
      tr: "tr = (index, j, hit) # tr1"
      by (rule pairLoop_step)
    from "1.IH" [OF True res refl refl rest] True tr show ?thesis
      by (simp add: checkedPair_def upt_conv_Cons)
  qed
qed

lemma pairLoop_fixedPart:
  "pairLoop rocks index j = Inr (rocks', tr) \<Longrightarrow> map fixedPart rocks' = map fixedPart rocks"
proof (induction rocks index j arbitrary: rocks' tr rule: pairLoop.induct)
  case (1 rocks index j)
  show ?case
  proof (cases "j < length rocks")
    case False
    with "1.prems" show ?thesis by (simp add: pairLoop_done)
  next
    case True
    from True "1.prems" obtain rock' other' hit tr1 where
      res: "resolvePair (rocks ! index) (rocks ! j) = Inr (rock', other', hit)" and
      rest: "pairLoop (rocks[index := rock', j := other']) index (Suc j) = Inr (rocks', tr1)"
      by (rule pairLoop_step)
    from resolvePair_fixedPart [OF res]
    have "fixedPart rock' = fixedPart (rocks ! index)" "fixedPart other' = fixedPart (rocks ! j)"
      by simp_all
    then have "map fixedPart (rocks[index := rock', j := other']) = map fixedPart rocks"
      by (cases "index = j") (simp_all add: map_update_same)
    with "1.IH" [OF True res refl refl rest] show ?thesis by simp
  qed
qed




lemma forEachFrom_fixedPart:
  "forEachFrom cv n rocks index = Inr (rocks', tr) \<Longrightarrow> map fixedPart rocks' = map fixedPart rocks"
proof (induction cv n rocks index arbitrary: rocks' tr rule: forEachFrom.induct)
  case (1 cv n rocks index)
  show ?case
  proof (cases "index < n")
    case False
    with "1.prems" show ?thesis by (simp add: forEachFrom_done)
  next
    case True
    from True "1.prems" obtain rocks1 tr1 tr2 where
      inner: "pairLoop (rocks[index := wallBounce cv (integrate (rocks ! index))]) index (Suc index)
                = Inr (rocks1, tr1)" and
      rest: "forEachFrom cv n rocks1 (Suc index) = Inr (rocks', tr2)"
      by (rule forEachFrom_step)
    have "map fixedPart (rocks[index := wallBounce cv (integrate (rocks ! index))])
            = map fixedPart rocks"
      by (simp add: map_update_same wallBounce_fixedPart integrate_fixedPart)
    with "1.IH" [OF True refl inner refl rest] pairLoop_fixedPart [OF inner] show ?thesis
      by simp
  qed
qed

lemma forEachFrom_trace:
  "forEachFrom cv n rocks index = Inr (rocks', tr) \<Longrightarrow> n = length rocks \<Longrightarrow>
     map checkedPair tr = pairsFrom index n"
proof (induction cv n rocks index arbitrary: rocks' tr rule: forEachFrom.induct)
  case (1 cv n rocks index)
  show ?case
  proof (cases "index < n")
    case False
    with "1.prems" show ?thesis by (simp add: forEachFrom_done pairsFrom_unfold [of index])
  next
    case True
    from True "1.prems"(1) obtain rocks1 tr1 tr2 where
      inner: "pairLoop (rocks[index := wallBounce cv (integrate (rocks ! index))]) index (Suc index)
                = Inr (rocks1, tr1)" and
      rest: "forEachFrom cv n rocks1 (Suc index) = Inr (rocks', tr2)" and
      tr: "tr = tr1 @ tr2"
      by (rule forEachFrom_step)
    from pairLoop_length [OF inner] "1.prems"(2) have n: "n = length rocks1"
      by simp
    from pairLoop_trace [OF inner] "1.prems"(2)
    have row: "map checkedPair tr1 = map (Pair index) [Suc index..<n]"
      by simp
    from "1.IH" [OF True refl inner refl rest n] row tr True show ?thesis
      by (simp add: pairsFrom_unfold [of index])
  qed
qed


subsection \<open>Well-formed rocks: the step returns\<close>

lemma wellFormed_fixedPart: "fixedPart r' = fixedPart r \<Longrightarrow> wellFormed r' = wellFormed r"
  by (simp add: fixedPart_def wellFormed_def)

lemma createRock_wellFormed:
  assumes "random_draws ds" and "createRock ds x y vx vy s = Inr s'"
    and "\<forall>r \<in> set (rocksRef s). wellFormed r"
  shows "\<forall>r \<in> set (rocksRef s'). wellFormed r"
proof -
  from assms(1) have "0 \<le> d_radius ds"
    by (simp add: random_draws_def unit_draw_def)
  then have "0 < 15 + d_radius ds * 25"
    by simp
  with assms(2,3) density_pos show ?thesis
    by (auto simp add: createRock_def Let_def wellFormed_def split: if_splits)
qed

lemma resolvePair_total:
  assumes "wellFormed rock" and "wellFormed other"
  shows "\<exists>rock' other' hit. resolvePair rock other = Inr (rock', other', hit)"
proof -
  from assms have "rock_mass rock + rock_mass other \<noteq> 0"
    by (simp add: wellFormed_def)
  then show ?thesis
    by (auto simp add: resolvePair_def Let_def)
qed

lemma wellFormed_update:
  assumes "\<forall>i < length rocks. wellFormed (rocks ! i)" and "wellFormed v"
  shows "\<forall>i < length (rocks[k := v]). wellFormed (rocks[k := v] ! i)"
proof (cases "k < length rocks")
  case True
  with assms show ?thesis
    by (simp add: nth_list_update)
next
  case False
  with assms show ?thesis
    by (simp add: not_less list_update_beyond)
qed

lemma pairLoop_total:
  "\<forall>i < length rocks. wellFormed (rocks ! i) \<Longrightarrow> index < length rocks \<Longrightarrow>
     \<exists>rocks' tr. pairLoop rocks index j = Inr (rocks', tr)"
proof (induction rocks index j rule: pairLoop.induct)
  case (1 rocks index j)
  show ?case
  proof (cases "j < length rocks")
    case False
    then show ?thesis by (simp add: pairLoop_done)
  next
    case True
    from "1.prems" True have "wellFormed (rocks ! index)" "wellFormed (rocks ! j)"
      by simp_all
    then obtain rock' other' hit where
      res: "resolvePair (rocks ! index) (rocks ! j) = Inr (rock', other', hit)"
      using resolvePair_total by blast
    from resolvePair_fixedPart [OF res]
    have "wellFormed rock' = wellFormed (rocks ! index)"
      and "wellFormed other' = wellFormed (rocks ! j)"
      by (simp_all add: wellFormed_fixedPart [of rock' "rocks ! index"]
          wellFormed_fixedPart [of other' "rocks ! j"])
    with \<open>wellFormed (rocks ! index)\<close> \<open>wellFormed (rocks ! j)\<close>
    have wf: "wellFormed rock'" "wellFormed other'"
      by simp_all
    from "1.prems"(1) wf(1) have "\<forall>i < length (rocks[index := rock']).
        wellFormed (rocks[index := rock'] ! i)"
      by (rule wellFormed_update)
    from this wf(2) have all: "\<forall>i < length (rocks[index := rock', j := other']).
        wellFormed (rocks[index := rock', j := other'] ! i)"
      by (rule wellFormed_update)
    from "1.prems"(2) have "index < length (rocks[index := rock', j := other'])"
      by simp
    from "1.IH" [OF True res refl refl all this] obtain rocks' tr where
      "pairLoop (rocks[index := rock', j := other']) index (Suc j) = Inr (rocks', tr)"
      by blast
    with True res show ?thesis
      by (subst pairLoop.simps) simp
  qed
qed

lemma fixedPart_wellFormed_all:
  assumes "map fixedPart rocks' = map fixedPart rocks"
    and "\<forall>i < length rocks. wellFormed (rocks ! i)"
  shows "\<forall>i < length rocks'. wellFormed (rocks' ! i)"
proof (intro allI impI)
  fix i
  assume i: "i < length rocks'"
  from assms(1) have len: "length rocks' = length rocks"
    by (rule map_eq_imp_length_eq)
  from assms(1) have "map fixedPart rocks' ! i = map fixedPart rocks ! i"
    by simp
  with i len have "fixedPart (rocks' ! i) = fixedPart (rocks ! i)"
    by simp
  then have "wellFormed (rocks' ! i) = wellFormed (rocks ! i)"
    by (rule wellFormed_fixedPart)
  with assms(2) i len show "wellFormed (rocks' ! i)"
    by simp
qed

lemma forEachFrom_total:
  "\<forall>i < length rocks. wellFormed (rocks ! i) \<Longrightarrow> n = length rocks \<Longrightarrow>
     \<exists>rocks' tr. forEachFrom cv n rocks index = Inr (rocks', tr)"
proof (induction cv n rocks index rule: forEachFrom.induct)
  case (1 cv n rocks index)
  show ?case
  proof (cases "index < n")
    case False
    then show ?thesis by (simp add: forEachFrom_done)
  next
    case True
    let ?moved = "wallBounce cv (integrate (rocks ! index))"
    have fixed: "map fixedPart (rocks[index := ?moved]) = map fixedPart rocks"
      by (simp add: map_update_same wallBounce_fixedPart integrate_fixedPart)
    with "1.prems"(1) have all: "\<forall>i < length (rocks[index := ?moved]).
        wellFormed (rocks[index := ?moved] ! i)"
      by (rule fixedPart_wellFormed_all [rotated])
    from True "1.prems"(2) have "index < length (rocks[index := ?moved])"
      by simp
    from pairLoop_total [OF all this] obtain rocks1 tr1 where
      inner: "pairLoop (rocks[index := ?moved]) index (Suc index) = Inr (rocks1, tr1)"
      by blast
    from pairLoop_fixedPart [OF inner] all have all1: "\<forall>i < length rocks1. wellFormed (rocks1 ! i)"
      by (rule fixedPart_wellFormed_all)
    from pairLoop_length [OF inner] "1.prems"(2) have n: "n = length rocks1"
      by simp
    from "1.IH" [OF True refl inner refl all1 n] obtain rocks' tr2 where
      "forEachFrom cv n rocks1 (Suc index) = Inr (rocks', tr2)"
      by blast
    with True inner show ?thesis
      by (subst forEachFrom.simps) (simp add: Let_def)
  qed
qed

text \<open>On well-formed rocks the physics step returns, and the rocks stay well-formed.\<close>

lemma updatePhysics_total:
  assumes "\<forall>r \<in> set (rocksRef s). wellFormed r"
  shows "\<exists>s' tr. updatePhysics s = Inr (s', tr) \<and> (\<forall>r \<in> set (rocksRef s'). wellFormed r)"
proof (cases "canvasRef s")
  case None
  with assms show ?thesis
    by (simp add: updatePhysics_def)
next
  case (Some cv)
  from assms have all: "\<forall>i < length (rocksRef s). wellFormed (rocksRef s ! i)"
    by simp
  from forEachFrom_total [OF all refl] obtain rocks' tr where
    run: "forEachFrom cv (length (rocksRef s)) (rocksRef s) 0 = Inr (rocks', tr)"
    by blast
  from forEachFrom_fixedPart [OF run] all have "\<forall>i < length rocks'. wellFormed (rocks' ! i)"
    by (rule fixedPart_wellFormed_all)
  then have "\<forall>r \<in> set rocks'. wellFormed r"
    by (auto simp add: in_set_conv_nth)
  with Some run show ?thesis
    by (simp add: updatePhysics_def)
qed

subsection \<open>Order of the pairwise checks\<close>

lemma distinct_count_list:
  "distinct xs \<Longrightarrow> count_list xs x = (if x \<in> set xs then 1 else 0)"
  by (induction xs) auto

lemma updatePhysics_result:
  assumes "updatePhysics s = Inr (s', tr)" and "canvasRef s = Some cv"
  obtains rocks' where
    "forEachFrom cv (length (rocksRef s)) (rocksRef s) 0 = Inr (rocks', tr)"
    "s' = s\<lparr>rocksRef := rocks'\<rparr>"
  using assms by (auto simp add: updatePhysics_def split: sum.splits)

lemma sqrt_900: "sqrt 900 = 30"
  using real_sqrt_abs2 [of 30] by simp

lemma sqrt_less_40: "sqrt a < 40 \<longleftrightarrow> a < 1600"
proof -
  have "sqrt 1600 = 40"
    using real_sqrt_abs2 [of 40] by simp
  then have "sqrt a < 40 \<longleftrightarrow> sqrt a < sqrt 1600"
    by simp
  then show ?thesis
    by (simp only: real_sqrt_less_iff)
qed

lemma c6_step:
  "updatePhysics c6_sim = Inr (c6_after, c6_trace)"
  by (simp add: c6_trace_def updatePhysics_def c6_sim_def c6_after_def c6_rockA_def c6_rockB_def c6_rockC_def
      c6_canvas_def
      forEachFrom.simps pairLoop.simps resolvePair_def Let_def integrate_def wallBounce_def
      bounceLeft_def bounceRight_def bounceCeiling_def bounceFloor_def atan2_def
      gravity_def airResistance_def friction_def ROCK_TYPES_def sqrt_900 sqrt_less_40)

text \<open>
  C6. In one physics step over \<open>n\<close> rocks the test of the inner loop is evaluated for
  the pairs \<open>(i, j)\<close> with \<open>i < j < n\<close> and no others, each exactly once, in ascending
  index order; so no unordered pair is resolved twice.
\<close>

theorem pair_checks_once_in_order:
  assumes "updatePhysics s = Inr (s', tr)" and "canvasRef s = Some cv"
  shows "map checkedPair tr = allPairs (length (rocksRef s))
       \<and> (\<forall>i j. count_list (map checkedPair tr) (i, j)
                  = (if i < j \<and> j < length (rocksRef s) then 1 else 0))
       \<and> sorted_wrt pairBefore (map checkedPair tr)
       \<and> distinct (map unordered (map checkedPair (filter (\<lambda>e. snd (snd e)) tr)))"
proof -
  let ?n = "length (rocksRef s)"
  from assms obtain rocks' where
    run: "forEachFrom cv ?n (rocksRef s) 0 = Inr (rocks', tr)"
    by (rule updatePhysics_result)
  from forEachFrom_trace [OF run refl] have tr: "map checkedPair tr = allPairs ?n"
    by (simp add: allPairs_def)
  have sorted: "sorted_wrt pairBefore (allPairs ?n)"
    by (simp add: allPairs_def sorted_pairsFrom)
  then have "distinct (allPairs ?n)"
    by (rule sorted_wrt_irrefl_distinct) (simp add: pairBefore_def)
  then have once: "count_list (allPairs ?n) (i, j) = (if i < j \<and> j < ?n then 1 else 0)" for i j
    by (simp add: distinct_count_list allPairs_def set_pairsFrom)
  have "distinct (map unordered (map checkedPair tr))"
    by (simp only: tr allPairs_def distinct_unordered_pairsFrom)
  then have "distinct (map (unordered \<circ> checkedPair) tr)"
    by simp
  then have "distinct (map (unordered \<circ> checkedPair) (filter (\<lambda>e. snd (snd e)) tr))"
    by (rule distinct_map_filter)
  then have hits: "distinct (map unordered (map checkedPair (filter (\<lambda>e. snd (snd e)) tr)))"
    by simp
  from tr once sorted hits show ?thesis
    by simp
qed

theorem pair_checks_once_in_order_witness:
  "updatePhysics c6_sim = Inr (c6_after, c6_trace)
   \<and> canvasRef c6_sim = Some c6_canvas
   \<and> map checkedPair c6_trace = allPairs (length (rocksRef c6_sim))
   \<and> map checkedPair c6_trace = [(0, 1), (0, 2), (1, 2)]
   \<and> (\<forall>i j. count_list (map checkedPair c6_trace) (i, j)
              = (if i < j \<and> j < length (rocksRef c6_sim) then 1 else 0))
   \<and> sorted_wrt pairBefore (map checkedPair c6_trace)
   \<and> distinct (map unordered (map checkedPair (filter (\<lambda>e. snd (snd e)) c6_trace)))"
proof -
  have cv: "canvasRef c6_sim = Some c6_canvas"
    by (simp add: c6_sim_def)
  have tr: "map checkedPair c6_trace = [(0, 1), (0, 2), (1, 2)]"
    by (simp add: checkedPair_def c6_trace_def)
  from pair_checks_once_in_order [OF c6_step cv] c6_step cv tr show ?thesis
    by (intro conjI) blast+
qed

subsection \<open>Canvas bounds\<close>








lemma forEachFrom_trace_index:
  assumes "forEachFrom cv n rocks index = Inr (rocks', tr)" and "n = length rocks"
    and "e \<in> set tr"
  shows "index \<le> fst e"
proof -
  from assms(3) have "checkedPair e \<in> set (map checkedPair tr)"
    by simp
  with forEachFrom_trace [OF assms(1,2)] show ?thesis
    by (auto simp add: checkedPair_def set_pairsFrom)
qed






subsection \<open>Collision response: energy\<close>
















subsection \<open>The single-rock scenario\<close>

lemma noWallHit_wallBounce: "noWallHit cv r \<Longrightarrow> wallBounce cv r = r"
  by (simp add: noWallHit_def wallBounce_def bounceLeft_def bounceRight_def bounceCeiling_def
      bounceFloor_def)

lemma animate_single:
  assumes "rocksRef s = [r]" and "canvasRef s = Some cv" and "isPlaying s"
  shows "animate s = Inr (s\<lparr>rocksRef := [wallBounce cv (integrate r)]\<rparr>)"
  using assms by (simp add: animate_def updatePhysics_single)

text \<open>
  C7 (amended). One granite rock of radius 20 at rest at \<open>(100, 100)\<close> on a 400 by 400
  canvas: one frame applies gravity and then air resistance, giving
  \<open>vy = 0.5 * 0.999 = 0.4995\<close> and \<open>y = 100.4995\<close>, with \<open>vx = 0\<close>, \<open>x = 100\<close> and no
  wall test triggered.
\<close>

theorem single_rock_first_step:
  assumes "rocksRef s = [r]" and "canvasRef s = Some cv" and "isPlaying s"
    and "canvas_width cv = 400" and "canvas_height cv = 400"
    and "rock_x r = 100" and "rock_y r = 100" and "rock_vx r = 0" and "rock_vy r = 0"
    and "rock_radius r = 20" and "rock_type r = granite"
  shows "animate s = Inr (s\<lparr>rocksRef := [integrate r]\<rparr>)
       \<and> rock_vy (integrate r) = 0.4995 \<and> rock_y (integrate r) = 100.4995
       \<and> rock_vx (integrate r) = 0 \<and> rock_x (integrate r) = 100
       \<and> noWallHit cv (integrate r)"
proof -
  from assms(6-10) have moved: "rock_vy (integrate r) = 0.4995" "rock_y (integrate r) = 100.4995"
    "rock_vx (integrate r) = 0" "rock_x (integrate r) = 100" "rock_radius (integrate r) = 20"
    by (simp_all add: integrate_def Let_def gravity_def airResistance_def)
  with assms(4,5) have free: "noWallHit cv (integrate r)"
    by (simp add: noWallHit_def)
  from animate_single [OF assms(1-3)] noWallHit_wallBounce [OF free]
  have "animate s = Inr (s\<lparr>rocksRef := [integrate r]\<rparr>)"
    by simp
  with moved free show ?thesis
    by simp
qed

lemma c7_spawn: "createRock c7_draws 100 100 0 0 c7_empty = Inr c7_spawned"
  by (simp add: createRock_def Let_def c7_draws_def c7_empty_def c7_spawned_def c7_rock_def
      ROCK_TYPES_def)

lemma c7_integrate: "integrate c7_rock = c7_rock\<lparr>rock_y := 100.4995, rock_vy := 0.4995\<rparr>"
  by (simp add: integrate_def Let_def c7_rock_def gravity_def airResistance_def)

theorem single_rock_first_step_witness:
  "createRock c7_draws 100 100 0 0 c7_empty = Inr c7_spawned
   \<and> animate c7_spawned = Inr c7_stepped
   \<and> rock_vy (hd (rocksRef c7_stepped)) = 0.4995
   \<and> rock_y (hd (rocksRef c7_stepped)) = 100.4995
   \<and> noWallHit \<lparr>canvas_width = 400, canvas_height = 400\<rparr> (hd (rocksRef c7_stepped))"
proof -
  have "rocksRef c7_spawned = [c7_rock]"
    and "canvasRef c7_spawned = Some \<lparr>canvas_width = 400, canvas_height = 400\<rparr>"
    and "isPlaying c7_spawned"
    and "canvas_width \<lparr>canvas_width = 400, canvas_height = 400\<rparr> = 400"
    and "canvas_height \<lparr>canvas_width = 400, canvas_height = 400\<rparr> = 400"
    and "rock_x c7_rock = 100" and "rock_y c7_rock = 100" and "rock_vx c7_rock = 0"
    and "rock_vy c7_rock = 0" and "rock_radius c7_rock = 20" and "rock_type c7_rock = granite"
    by (simp_all add: c7_spawned_def c7_empty_def c7_rock_def)
  from single_rock_first_step [OF this] c7_spawn show ?thesis
    by (simp add: c7_stepped_def c7_integrate)
qed

text \<open>The claim as stated fails: after the frame \<open>vy\<close> is not 0.5 and \<open>y\<close> is not 100.5.\<close>

theorem single_rock_first_step_counterexample:
  "createRock c7_draws 100 100 0 0 c7_empty = Inr c7_spawned
   \<and> rocksRef c7_spawned = [c7_rock]
   \<and> rock_x c7_rock = 100 \<and> rock_y c7_rock = 100 \<and> rock_vx c7_rock = 0 \<and> rock_vy c7_rock = 0
   \<and> rock_radius c7_rock = 20 \<and> rock_type c7_rock = granite
   \<and> animate c7_spawned = Inr c7_stepped
   \<and> rock_vy (hd (rocksRef c7_stepped)) \<noteq> 0.5
   \<and> rock_y (hd (rocksRef c7_stepped)) \<noteq> 100.5"
proof -
  have "animate c7_spawned = Inr c7_stepped"
    by (simp add: animate_def updatePhysics_single [of _ c7_rock] c7_spawned_def c7_empty_def
        c7_stepped_def c7_integrate wallBounce_def bounceLeft_def bounceRight_def
        bounceCeiling_def bounceFloor_def)
      (simp add: c7_rock_def)
  with c7_spawn show ?thesis
    by (simp add: c7_spawned_def c7_empty_def c7_stepped_def c7_rock_def)
qed

subsection \<open>Rock ids\<close>

lemma createRock_ids:
  assumes "createRock ds x y vx vy s = Inr s'"
  shows "map rock_id (rocksRef s') = map rock_id (rocksRef s) @ [d_now ds + d_id ds]"
  using assms by (auto simp add: createRock_def Let_def split: if_splits)

lemma spawns_ids:
  "spawns qs s = Inr s' \<Longrightarrow>
     map rock_id (rocksRef s') = map rock_id (rocksRef s) @ map spawnId qs"
proof (induction qs s rule: spawns.induct)
  case (1 s)
  then show ?case by simp
next
  case (2 ds x y vx vy qs s)
  from "2.prems" obtain s1 where
    made: "createRock ds x y vx vy s = Inr s1" and rest: "spawns qs s1 = Inr s'"
    by (auto split: sum.splits)
  from "2.IH" [OF made rest] createRock_ids [OF made] show ?case
    by (simp add: spawnId_def)
qed

text \<open>
  C9 (amended). After a sequence of spawns the ids in the collection are the ids it
  held before followed by the values \<open>Date.now() + Math.random()\<close> of the spawns, in
  order; so the ids are pairwise distinct exactly when these values are. Nothing in
  \<open>createRock\<close> makes them so.
\<close>

theorem spawned_ids:
  assumes "spawns qs s = Inr s'"
  shows "map rock_id (rocksRef s') = map rock_id (rocksRef s) @ map spawnId qs
       \<and> distinct (map rock_id (rocksRef s'))
           = distinct (map rock_id (rocksRef s) @ map spawnId qs)"
  using spawns_ids [OF assms] by simp

lemma sum_result: "\<not> isl r \<Longrightarrow> r = Inr (projr r)"
  by (cases r) simp_all

lemma c9_distinct_run: "\<not> isl (spawns [c9_first, c9_third] c9_empty)"
  by (simp add: c9_first_def c9_third_def c9_empty_def createRock_def Let_def)

lemma c9_clash_run: "\<not> isl (spawns [c9_first, c9_second] c9_empty)"
  by (simp add: c9_first_def c9_second_def c9_empty_def createRock_def Let_def)

theorem spawned_ids_witness:
  "\<not> isl (spawns [c9_first, c9_third] c9_empty)
   \<and> map rock_id (rocksRef (projr (spawns [c9_first, c9_third] c9_empty)))
       = [1700000000000.5, 1700000000500.25]
   \<and> distinct (map rock_id (rocksRef (projr (spawns [c9_first, c9_third] c9_empty))))"
proof -
  have run: "spawns [c9_first, c9_third] c9_empty
      = Inr (projr (spawns [c9_first, c9_third] c9_empty))"
    using c9_distinct_run by (rule sum_result)
  have ids: "map rock_id (rocksRef c9_empty) @ map spawnId [c9_first, c9_third]
      = [1700000000000.5, 1700000000500.25]"
    by (simp add: spawnId_def c9_first_def c9_third_def c9_empty_def)
  from spawned_ids [OF run]
  have same: "map rock_id (rocksRef (projr (spawns [c9_first, c9_third] c9_empty)))
      = [1700000000000.5, 1700000000500.25]"
    by (simp only: ids)
  then have "distinct (map rock_id (rocksRef (projr (spawns [c9_first, c9_third] c9_empty))))"
    by simp
  with c9_distinct_run same show ?thesis
    by (intro conjI)
qed

text \<open>
  The claim as stated fails: two spawns that read the same clock value and the same
  random number give two rocks with the same id.
\<close>

theorem spawned_ids_counterexample:
  "random_draws (fst c9_first) \<and> random_draws (fst c9_second)
   \<and> \<not> isl (spawns [c9_first, c9_second] c9_empty)
   \<and> length (rocksRef (projr (spawns [c9_first, c9_second] c9_empty))) = 2
   \<and> map rock_id (rocksRef (projr (spawns [c9_first, c9_second] c9_empty)))
       = [1700000000000.5, 1700000000000.5]
   \<and> \<not> distinct (map rock_id (rocksRef (projr (spawns [c9_first, c9_second] c9_empty))))"
  by (simp add: c9_first_def c9_second_def c9_empty_def createRock_def Let_def random_draws_def
      unit_draw_def)

section \<open>Properties in double arithmetic\<close>

subsection \<open>Rounding to nearest\<close>

lemma ulp_pos: "0 < ulp x"
  by (simp add: ulp_def)

lemma roundEven_le: "q \<le> of_int n \<Longrightarrow> roundEven q \<le> n"
  unfolding roundEven_def Let_def by (auto; linarith)

lemma roundEven_ge: "of_int n \<le> q \<Longrightarrow> n \<le> roundEven q"
  unfolding roundEven_def Let_def by (auto; linarith)

lemma roundEven_of_int: "roundEven (of_int n) = n"
  by (simp add: roundEven_def)

lemma floor_uminus_nonint:
  fixes q :: real
  assumes "q \<notin> \<int>"
  shows "\<lfloor>- q\<rfloor> = - \<lfloor>q\<rfloor> - 1"
proof (rule floor_unique)
  have "of_int \<lfloor>q\<rfloor> \<noteq> q"
    using assms by (metis Ints_of_int)
  then have less: "of_int \<lfloor>q\<rfloor> < q"
    using of_int_floor_le [of q] by linarith
  show "of_int (- \<lfloor>q\<rfloor> - 1) \<le> - q"
    using real_of_int_floor_add_one_ge [of q] by simp linarith
  show "- q < of_int (- \<lfloor>q\<rfloor> - 1) + 1"
    using less by simp
qed

lemma roundEven_uminus: "roundEven (- q) = - roundEven q"
proof (cases "q \<in> \<int>")
  case True
  then obtain n where "q = of_int n"
    by (auto elim: Ints_cases)
  then show ?thesis
    using roundEven_of_int [of n] roundEven_of_int [of "- n"] by simp
next
  case False
  note fl = floor_uminus_nonint [OF False]
  define n where "n = \<lfloor>q\<rfloor>"
  define d where "d = q - of_int n"
  have d': "- q - of_int (- n - 1) = 1 - d"
    by (simp add: d_def)
  have parity: "even (- n - 1) \<longleftrightarrow> odd n"
    by simp
  have "roundEven (- q) = (if 1 - d < 1 / 2 then - n - 1 else if 1 / 2 < 1 - d then - n
      else if odd n then - n - 1 else - n)"
    unfolding roundEven_def Let_def fl n_def [symmetric] d' parity by simp
  moreover have "roundEven q = (if d < 1 / 2 then n else if 1 / 2 < d then n + 1
      else if even n then n else n + 1)"
    unfolding roundEven_def Let_def n_def [symmetric] d_def [symmetric] by simp
  ultimately show ?thesis
    by (simp; linarith?)
qed

lemma floor_log2_iff:
  fixes x :: real
  assumes "0 < x"
  shows "\<lfloor>log 2 x\<rfloor> = k \<longleftrightarrow> 2 powi k \<le> x \<and> x < 2 powi (k + 1)"
proof -
  have "(2::real) powr real_of_int k = 2 powi k"
    and "(2::real) powr (real_of_int k + 1) = 2 powi (k + 1)"
    using powr_real_of_int' [of "2::real" k] powr_real_of_int' [of "2::real" "k + 1"]
    by simp_all
  with floor_log_eq_powr_iff [of x 2 k] assms show ?thesis
    by simp
qed

lemma binade_eq:
  assumes "2 powi k \<le> \<bar>x\<bar>" and "\<bar>x\<bar> < 2 powi (k + 1)" and "- 1022 \<le> k"
  shows "binade x = k"
proof -
  have "0 < (2::real) powi k"
    by simp
  with assms(1) have "0 < \<bar>x\<bar>"
    by linarith
  with assms(1,2) have "\<lfloor>log 2 \<bar>x\<bar>\<rfloor> = k"
    by (simp add: floor_log2_iff)
  with assms(3) show ?thesis
    by (simp add: binade_def)
qed

lemma binade_ge: "- 1022 \<le> binade x"
  by (simp add: binade_def)

lemma binade_upper:
  assumes "x \<noteq> 0"
  shows "\<bar>x\<bar> < 2 powi (binade x + 1)"
proof -
  define j where "j = \<lfloor>log 2 \<bar>x\<bar>\<rfloor>"
  from assms have pos: "0 < \<bar>x\<bar>"
    by simp
  from floor_log2_iff [OF pos, of j] have "\<bar>x\<bar> < 2 powi (j + 1)"
    by (simp add: j_def)
  also have "(2::real) powi (j + 1) \<le> 2 powi (binade x + 1)"
    by (intro power_int_increasing) (simp_all add: binade_def j_def)
  finally show ?thesis .
qed

lemma binade_lower:
  assumes "x \<noteq> 0" and "- 1022 < binade x"
  shows "2 powi binade x \<le> \<bar>x\<bar>"
proof -
  define j where "j = \<lfloor>log 2 \<bar>x\<bar>\<rfloor>"
  from assms(1) have pos: "0 < \<bar>x\<bar>"
    by simp
  from assms(2) have "binade x = j"
    by (simp add: binade_def j_def max_def split: if_splits)
  moreover from floor_log2_iff [OF pos, of j] have "2 powi j \<le> \<bar>x\<bar>"
    by (simp add: j_def)
  ultimately show ?thesis
    by simp
qed

lemma ulp_uminus: "ulp (- x) = ulp x"
  by (simp add: ulp_def binade_def)

lemma nearest_uminus: "nearest (- x) = - nearest x"
  using roundEven_uminus [of "x / ulp x"] by (simp add: nearest_def ulp_uminus)

lemma nearest_le_multiple:
  assumes "x \<le> of_int n * ulp x"
  shows "nearest x \<le> of_int n * ulp x"
proof (cases "x = 0")
  case True
  with assms show ?thesis
    by (simp add: nearest_def)
next
  case False
  from assms ulp_pos [of x] have "x / ulp x \<le> of_int n"
    by (simp add: field_simps)
  then have "roundEven (x / ulp x) \<le> n"
    by (rule roundEven_le)
  then have "of_int (roundEven (x / ulp x)) * ulp x \<le> of_int n * ulp x"
    using ulp_pos [of x] by (intro mult_right_mono) simp_all
  with False show ?thesis
    by (simp add: nearest_def)
qed

lemma nearest_ge_multiple:
  assumes "of_int n * ulp x \<le> x"
  shows "of_int n * ulp x \<le> nearest x"
proof (cases "x = 0")
  case True
  with assms show ?thesis
    by (simp add: nearest_def)
next
  case False
  from assms ulp_pos [of x] have "of_int n \<le> x / ulp x"
    by (simp add: field_simps)
  then have "n \<le> roundEven (x / ulp x)"
    by (rule roundEven_ge)
  then have "of_int n * ulp x \<le> of_int (roundEven (x / ulp x)) * ulp x"
    using ulp_pos [of x] by (intro mult_right_mono) simp_all
  with False show ?thesis
    by (simp add: nearest_def)
qed

text \<open>A number \<open>m * 2 ^ e\<close> on a grid at least as coarse as that of \<open>x\<close> is a multiple of \<open>ulp x\<close>.\<close>

lemma multiple_of_ulp:
  assumes "binade x - 52 \<le> e"
  shows "of_int m * 2 powi e = of_int (m * 2 ^ nat (e - (binade x - 52))) * ulp x"
proof -
  have "(2::real) powi e = 2 powi (e - (binade x - 52)) * 2 powi (binade x - 52)"
    by (simp flip: power_int_add)
  also have "(2::real) powi (e - (binade x - 52)) = 2 ^ nat (e - (binade x - 52))"
    using assms by (simp add: power_int_def)
  finally show ?thesis
    by (simp add: ulp_def)
qed

lemma binade_grid: "2 powi binade x = of_int (2 ^ 52) * ulp x"
  using power_int_add [of "2::real" 52 "binade x - 52"] by (simp add: ulp_def)

text \<open>Rounding is monotone at every number of the form \<open>m * 2\<^sup>e\<close> with \<open>m \<le> 2\<^sup>5\<^sup>3\<close>.\<close>

lemma nearest_upper:
  assumes "0 < x" and "x \<le> c" and "c = of_int m * 2 powi e"
    and "m \<le> 2 ^ 53" and "- 1074 \<le> e"
  shows "nearest x \<le> c"
proof (cases "binade x - 52 \<le> e")
  case True
  define n where "n = m * 2 ^ nat (e - (binade x - 52))"
  have c: "c = of_int n * ulp x"
    unfolding assms(3) n_def by (rule multiple_of_ulp [OF True])
  with assms(2) have "x \<le> of_int n * ulp x"
    by simp
  then have "nearest x \<le> of_int n * ulp x"
    by (rule nearest_le_multiple)
  with c show ?thesis
    by simp
next
  case False
  with assms(5) have b: "- 1022 < binade x" and eb: "e + 53 \<le> binade x"
    by simp_all
  from assms(1) binade_lower [OF _ b] have low: "2 powi binade x \<le> x"
    by simp
  have "c \<le> 2 ^ 53 * 2 powi e"
    unfolding assms(3) using assms(4) by (intro mult_right_mono) (simp_all flip: of_int_le_iff)
  also have "\<dots> = 2 powi (e + 53)"
    by (simp add: power_int_add)
  also have "\<dots> \<le> 2 powi binade x"
    using eb by (intro power_int_increasing) simp_all
  finally have "c \<le> 2 powi binade x" .
  with low assms(2) have x: "x = 2 powi binade x" and c: "c = 2 powi binade x"
    by simp_all
  from x have "x \<le> of_int (2 ^ 52) * ulp x"
    by (simp only: binade_grid [symmetric])
  then have "nearest x \<le> of_int (2 ^ 52) * ulp x"
    by (rule nearest_le_multiple)
  with c show ?thesis
    by (simp only: binade_grid [symmetric])
qed

lemma nearest_lower:
  assumes "0 < c" and "c \<le> x" and "c = of_int m * 2 powi e"
    and "m \<le> 2 ^ 53" and "- 1074 \<le> e"
  shows "c \<le> nearest x"
proof (cases "binade x - 52 \<le> e")
  case True
  define n where "n = m * 2 ^ nat (e - (binade x - 52))"
  have c: "c = of_int n * ulp x"
    unfolding assms(3) n_def by (rule multiple_of_ulp [OF True])
  with assms(2) have "of_int n * ulp x \<le> x"
    by simp
  then have "of_int n * ulp x \<le> nearest x"
    by (rule nearest_ge_multiple)
  with c show ?thesis
    by simp
next
  case False
  with assms(5) have b: "- 1022 < binade x" and eb: "e + 53 \<le> binade x"
    by simp_all
  from assms(1,2) have "x \<noteq> 0"
    by simp
  from binade_lower [OF this b] assms(1,2) have low: "2 powi binade x \<le> x"
    by simp
  have "c \<le> 2 ^ 53 * 2 powi e"
    unfolding assms(3) using assms(4) by (intro mult_right_mono) (simp_all flip: of_int_le_iff)
  also have "\<dots> = 2 powi (e + 53)"
    by (simp add: power_int_add)
  also have "\<dots> \<le> 2 powi binade x"
    using eb by (intro power_int_increasing) simp_all
  finally have c: "c \<le> 2 powi binade x" .
  from low have "of_int (2 ^ 52) * ulp x \<le> x"
    by (simp only: binade_grid [symmetric])
  then have "of_int (2 ^ 52) * ulp x \<le> nearest x"
    by (rule nearest_ge_multiple)
  with c show ?thesis
    by (simp only: binade_grid [symmetric])
qed

lemma nearest_nonneg: "0 \<le> x \<Longrightarrow> 0 \<le> nearest x"
  using nearest_ge_multiple [of 0 x] by simp

text \<open>Rounding inside a known binade.\<close>

lemma nearest_at:
  assumes "2 powi k \<le> \<bar>x\<bar>" and "\<bar>x\<bar> < 2 powi (k + 1)" and "- 1022 \<le> k"
  shows "nearest x = of_int (roundEven (x / 2 powi (k - 52))) * 2 powi (k - 52)"
proof -
  have "0 < (2::real) powi k"
    by simp
  with assms(1) have "0 < \<bar>x\<bar>"
    by linarith
  then have "x \<noteq> 0"
    by simp
  with binade_eq [OF assms] show ?thesis
    by (simp add: nearest_def ulp_def)
qed

lemma nearest_abs_le:
  assumes "\<bar>x\<bar> \<le> c" and "c = of_int m * 2 powi e" and "m \<le> 2 ^ 53" and "- 1074 \<le> e"
  shows "\<bar>nearest x\<bar> \<le> c"
proof -
  consider "x = 0" | "0 < x" | "x < 0"
    by linarith
  then show ?thesis
  proof cases
    case 1
    with assms(1) show ?thesis
      by (simp add: nearest_def)
  next
    case 2
    with assms(1) have "x \<le> c"
      by simp
    from nearest_upper [OF 2 this assms(2-4)] nearest_nonneg [of x] 2 show ?thesis
      by simp
  next
    case 3
    then have pos: "0 < - x" and "- x \<le> c"
      using assms(1) by simp_all
    from nearest_upper [OF this assms(2-4)] nearest_nonneg [of "- x"] 3 show ?thesis
      by (simp add: nearest_uminus)
  qed
qed

lemma maxDouble_ge: "2 powi k \<le> maxDouble" if "k \<le> 1023"
proof -
  have "(2::real) powi k \<le> 2 powi 1023"
    using that by (intro power_int_increasing) simp_all
  also have "\<dots> \<le> maxDouble"
    by (simp add: maxDouble_def)
  finally show ?thesis .
qed

lemma maxDouble_big: "2 ^ 1001 \<le> maxDouble"
  by (simp add: maxDouble_def)

lemma rd_finite:
  assumes "\<bar>x\<bar> \<le> c" and "c = of_int m * 2 powi e" and "m \<le> 2 ^ 53" and "- 1074 \<le> e"
    and "c \<le> maxDouble"
  shows "rd x = Fin (nearest x)" and "\<bar>nearest x\<bar> \<le> c"
proof -
  from nearest_abs_le [OF assms(1-4)] show bound: "\<bar>nearest x\<bar> \<le> c" .
  with assms(5) have "\<not> maxDouble < nearest x" and "\<not> nearest x < - maxDouble"
    by linarith+
  then show "rd x = Fin (nearest x)"
    by (simp add: rd_def Let_def)
qed

lemma rd_pow2:
  assumes "\<bar>x\<bar> \<le> 2 powi k" and "- 1074 \<le> k" and "k \<le> 1023"
  shows "rd x = Fin (nearest x)" and "\<bar>nearest x\<bar> \<le> 2 powi k"
  using rd_finite [OF assms(1), of 1 k] assms(2) maxDouble_ge [OF assms(3)] by simp_all


lemma nearest_0: "nearest 0 = 0"
  by (simp add: nearest_def)


lemma rd_eval: "\<bar>x\<bar> \<le> 2 ^ 60 \<Longrightarrow> rd x = Fin (nearest x)"
  using rd_pow2 [of x 60] by simp

lemmas nearest_evals =
  nearest_at [of "- 1"] nearest_at [of 0] nearest_at [of 1] nearest_at [of 2] nearest_at [of 3]
  nearest_at [of 4] nearest_at [of 5] nearest_at [of 6] nearest_at [of 7] nearest_at [of 8]
  nearest_at [of 9]

lemmas nearest_evals2 = nearest_evals nearest_at [of "- 46"]









lemma isDouble_at:
  assumes "2 powi k \<le> \<bar>x\<bar>" and "\<bar>x\<bar> < 2 powi (k + 1)" and "- 1022 \<le> k" and "k \<le> 1023"
    and "of_int (roundEven (x / 2 powi (k - 52))) * 2 powi (k - 52) = x"
  shows "isDouble x"
proof -
  from nearest_at [OF assms(1-3)] assms(5) have fixed: "nearest x = x"
    by simp
  have "\<bar>x\<bar> \<le> 2 powi (k + 1)"
    using assms(2) by simp
  from nearest_abs_le [OF this, of 1 "k + 1"] assms(3) fixed
  have "\<bar>x\<bar> \<le> maxDouble \<or> k = 1023"
    using maxDouble_ge [of "k + 1"] assms(4) by (cases "k = 1023") simp_all
  moreover have "\<bar>x\<bar> \<le> maxDouble" if "k = 1023"
  proof -
    define n where "n = roundEven (x / 2 powi (k - 52))"
    from assms(5) have x: "x = of_int n * 2 powi 971"
      by (simp add: n_def that)
    with assms(2) have "\<bar>of_int n :: real\<bar> * 2 powi 971 < 2 powi 1024"
      by (simp add: that abs_mult)
    also have "(2::real) powi 1024 = 2 ^ 53 * 2 powi 971"
      by simp
    finally have "\<bar>of_int n :: real\<bar> < 2 ^ 53"
      by simp
    then have "\<bar>n\<bar> < 2 ^ 53"
      by (metis (mono_tags) of_int_abs of_int_less_iff of_int_numeral of_int_power)
    then have "\<bar>n\<bar> \<le> 2 ^ 53 - 1"
      by simp
    then have "\<bar>of_int n :: real\<bar> \<le> 2 ^ 53 - 1"
      by (metis (mono_tags) of_int_abs of_int_le_iff of_int_numeral of_int_power of_int_diff of_int_1)
    then have "\<bar>of_int n :: real\<bar> * 2 ^ 971 \<le> (2 ^ 53 - 1) * 2 ^ 971"
      by (intro mult_right_mono) simp_all
    with x show ?thesis
      by (simp add: maxDouble_def abs_mult)
  qed
  ultimately show ?thesis
    using fixed by (auto simp add: isDouble_def)
qed

text \<open>The largest double below 1 is \<open>1 - 2\<^sup>-\<^sup>5\<^sup>3\<close>.\<close>

lemma double_below_1:
  assumes "isDouble u" and "u < 1"
  shows "u \<le> 1 - 1 / 2 ^ 53"
proof (cases "1 / 2 \<le> u")
  case False
  then have "u \<le> 1 / 2"
    by simp
  also have "(1::real) / 2 \<le> 1 - 1 / 2 ^ 53"
    by simp
  finally show ?thesis .
next
  case True
  define n where "n = roundEven (u / 2 powi (- 1 - 52))"
  from True assms(2) have "2 powi (- 1) \<le> \<bar>u\<bar>" and "\<bar>u\<bar> < 2 powi (- 1 + 1)"
    by (simp_all add: power_int_minus)
  from nearest_at [OF this] assms(1) have "u = of_int n * 2 powi (- 53)"
    by (simp add: isDouble_def n_def)
  then have u: "u = of_int n / 2 ^ 53"
    by (simp add: power_int_minus field_simps)
  with assms(2) have "(of_int n :: real) < 2 ^ 53"
    by (simp add: field_simps)
  then have "n < 2 ^ 53"
    by (metis (mono_tags) of_int_less_iff of_int_numeral of_int_power)
  then have "n \<le> 2 ^ 53 - 1"
    by simp
  then have "(of_int n :: real) \<le> 2 ^ 53 - 1"
    by (metis (mono_tags) of_int_le_iff of_int_numeral of_int_power of_int_diff of_int_1)
  then have "(of_int n :: real) / 2 ^ 53 \<le> (2 ^ 53 - 1) / 2 ^ 53"
    by (rule divide_right_mono) simp
  with u show ?thesis
    by (simp add: diff_divide_distrib)
qed

lemma roundEven_error: "\<bar>of_int (roundEven q) - q\<bar> \<le> 1 / 2"
  unfolding roundEven_def Let_def by (auto; linarith)

lemma nearest_error_ulp: "\<bar>nearest x - x\<bar> \<le> ulp x / 2"
proof (cases "x = 0")
  case True
  then show ?thesis
    using ulp_pos [of x] by (simp add: nearest_def)
next
  case False
  have "nearest x - x = (of_int (roundEven (x / ulp x)) - x / ulp x) * ulp x"
    using False ulp_pos [of x] by (simp add: nearest_def field_simps)
  then have "\<bar>nearest x - x\<bar> = \<bar>of_int (roundEven (x / ulp x)) - x / ulp x\<bar> * ulp x"
    using ulp_pos [of x] by (simp add: abs_mult)
  also have "\<dots> \<le> 1 / 2 * ulp x"
    using roundEven_error [of "x / ulp x"] ulp_pos [of x] by (intro mult_right_mono) simp_all
  finally show ?thesis
    by simp
qed

lemma ulp_le: "ulp x \<le> \<bar>x\<bar> / 2 ^ 52 + 1 / 2 ^ 1074" if "x \<noteq> 0"
proof (cases "- 1022 < binade x")
  case True
  from binade_lower [OF that True] binade_grid [of x] have "2 ^ 52 * ulp x \<le> \<bar>x\<bar>"
    by simp
  then have "ulp x \<le> \<bar>x\<bar> / 2 ^ 52"
    by (simp add: field_simps)
  then show ?thesis
    by (rule order_trans) simp
next
  case False
  with binade_ge [of x] have "binade x = - 1022"
    by simp
  then have "ulp x = 2 powi (- 1074)"
    by (simp add: ulp_def)
  also have "\<dots> = 1 / 2 ^ 1074"
    by (simp add: power_int_minus field_simps)
  finally show ?thesis
    by simp
qed

text \<open>The error of one rounding: half a unit in the last place.\<close>

lemma nearest_error: "\<bar>nearest x - x\<bar> \<le> \<bar>x\<bar> / 2 ^ 53 + 1 / 2 ^ 1075"
proof (cases "x = 0")
  case True
  then show ?thesis
    by (simp add: nearest_def)
next
  case False
  have "\<bar>nearest x - x\<bar> \<le> ulp x / 2"
    by (rule nearest_error_ulp)
  also have "\<dots> \<le> (\<bar>x\<bar> / 2 ^ 52 + 1 / 2 ^ 1074) / 2"
    using ulp_le [OF False] by simp
  also have "\<dots> = \<bar>x\<bar> / 2 ^ 53 + 1 / 2 ^ 1075"
    by simp
  finally show ?thesis .
qed

lemma nearest_error_normal:
  assumes "1 \<le> \<bar>x\<bar>"
  shows "\<bar>nearest x - x\<bar> \<le> \<bar>x\<bar> / 2 ^ 53"
proof -
  from assms have nz: "x \<noteq> 0"
    by auto
  have "- 1022 < binade x"
  proof (rule ccontr)
    assume "\<not> - 1022 < binade x"
    then have "(2::real) powi (binade x + 1) \<le> 2 powi 0"
      by (intro power_int_increasing) simp_all
    with binade_upper [OF nz] assms show False
      by simp
  qed
  from binade_lower [OF nz this] binade_grid [of x] have "2 ^ 52 * ulp x \<le> \<bar>x\<bar>"
    by simp
  then have "ulp x / 2 \<le> \<bar>x\<bar> / 2 ^ 53"
    by (simp add: field_simps)
  with nearest_error_ulp [of x] show ?thesis
    by linarith
qed

subsection \<open>Finite results of the operations, and the literals of the source\<close>

lemma jadd_Fin:
  assumes "\<bar>x + y\<bar> \<le> 2 powi k" and "- 1074 \<le> k" and "k \<le> 1023"
  shows "jadd (Fin x) (Fin y) = Fin (nearest (x + y))" and "\<bar>nearest (x + y)\<bar> \<le> 2 powi k"
  using rd_pow2 [OF assms] by simp_all

lemma jsub_Fin:
  assumes "\<bar>x - y\<bar> \<le> 2 powi k" and "- 1074 \<le> k" and "k \<le> 1023"
  shows "jsub (Fin x) (Fin y) = Fin (nearest (x - y))" and "\<bar>nearest (x - y)\<bar> \<le> 2 powi k"
  using rd_pow2 [OF assms] by (simp_all add: jsub_def)

lemma jmul_Fin:
  assumes "\<bar>x * y\<bar> \<le> 2 powi k" and "- 1074 \<le> k" and "k \<le> 1023"
  shows "jmul (Fin x) (Fin y) = Fin (nearest (x * y))" and "\<bar>nearest (x * y)\<bar> \<le> 2 powi k"
  using rd_pow2 [OF assms] by simp_all

lemma jdiv_Fin:
  assumes "y \<noteq> 0" and "\<bar>x / y\<bar> \<le> 2 powi k" and "- 1074 \<le> k" and "k \<le> 1023"
  shows "jdiv (Fin x) (Fin y) = Fin (nearest (x / y))" and "\<bar>nearest (x / y)\<bar> \<le> 2 powi k"
  using rd_pow2 [OF assms(2-4)] assms(1) by simp_all



lemma nearest_2: "nearest 2 = 2"
  using nearest_at [of 1 2] by (simp add: roundEven_def)

lemma nearest_half_lit: "nearest (1 / 2) = 1 / 2"
  using nearest_at [of "- 1" "1 / 2"] by (simp add: roundEven_def)

lemma nearest_08: "nearest (4 / 5) = 7205759403792794 / 2 ^ 53"
  using nearest_at [of "- 1" "4 / 5"] by (simp add: roundEven_def)

lemma nearest_15: "nearest 15 = 15"
  using nearest_at [of 3 15] by (simp add: roundEven_def)

lemma nearest_25: "nearest 25 = 25"
  using nearest_at [of 4 25] by (simp add: roundEven_def)

lemma nearest_tenth: "nearest (1 / 10) = 7205759403792794 / 2 ^ 56"
  using nearest_at [of "- 4" "1 / 10"] by (simp add: roundEven_def power_int_minus)

lemma nearest_twentieth: "nearest (1 / 20) = 7205759403792794 / 2 ^ 57"
  using nearest_at [of "- 5" "1 / 20"] by (simp add: roundEven_def power_int_minus)


lemma lit_values:
  "lit 2 = Fin 2" "lit 0.5 = Fin (1 / 2)" "lit 0.8 = Fin (7205759403792794 / 2 ^ 53)"
  by (simp_all add: lit_def rd_eval nearest_2 nearest_half_lit nearest_08)

lemma lit_half: "lit (1 / 2) = Fin (1 / 2)"
  by (simp add: lit_def rd_eval nearest_half_lit)

lemma lit_spawn:
  "lit 15 = Fin 15" "lit 25 = Fin 25" "lit 0.1 = Fin (7205759403792794 / 2 ^ 56)"
  "lit 0.05 = Fin (7205759403792794 / 2 ^ 57)"
  by (simp_all add: lit_def rd_eval nearest_15 nearest_25 nearest_tenth nearest_twentieth)

lemma abs_mult_le:
  fixes x y :: real
  assumes "\<bar>x\<bar> \<le> a" and "\<bar>y\<bar> \<le> b"
  shows "\<bar>x * y\<bar> \<le> a * b"
  unfolding abs_mult using assms by (intro mult_mono) simp_all

lemma abs_chain:
  fixes x y z :: real
  assumes "\<bar>x - y\<bar> \<le> e1" and "\<bar>y - z\<bar> \<le> e2" and "e1 + e2 \<le> e"
  shows "\<bar>x - z\<bar> \<le> e"
  using assms by linarith

lemma abs_bound:
  fixes x y :: real
  assumes "\<bar>x - y\<bar> \<le> e" and "\<bar>y\<bar> \<le> b" and "b + e \<le> c"
  shows "\<bar>x\<bar> \<le> c"
  using assms by linarith

lemma abs_error_mult:
  fixes x x' y :: real
  assumes "\<bar>x' - x\<bar> \<le> e" and "\<bar>y\<bar> \<le> b"
  shows "\<bar>x' * y - x * y\<bar> \<le> e * b"
proof -
  have "x' * y - x * y = (x' - x) * y"
    by (simp add: algebra_simps)
  with abs_mult_le [OF assms] show ?thesis
    by simp
qed




lemma isDouble_now: "isDouble 1700000000000"
  by (rule isDouble_at [of 40]) (simp_all add: roundEven_def)

lemma isDouble_fractions:
  "isDouble (5 / 8)" "isDouble (3 / 8)" "isDouble (1 / 4)" "isDouble (3 / 4)"
  "isDouble (1 - 1 / 2 ^ 53)"
proof -
  show "isDouble (5 / 8)"
    by (rule isDouble_at [of "- 1"]) (simp_all add: roundEven_def power_int_minus)
  show "isDouble (3 / 8)"
    by (rule isDouble_at [of "- 2"]) (simp_all add: roundEven_def power_int_minus)
  show "isDouble (1 / 4)"
    by (rule isDouble_at [of "- 2"]) (simp_all add: roundEven_def power_int_minus)
  show "isDouble (3 / 4)"
    by (rule isDouble_at [of "- 1"]) (simp_all add: roundEven_def power_int_minus)
  show "isDouble (1 - 1 / 2 ^ 53)"
    by (rule isDouble_at [of "- 1"]) (simp_all add: roundEven_def power_int_minus)
qed

subsection \<open>Spawning\<close>

lemma density_range: "4 / 5 \<le> density (ROCK_TYPES t) \<and> density (ROCK_TYPES t) \<le> 3 / 2"
  by (cases t) (simp_all add: ROCK_TYPES_def)

lemma createRockD_run:
  fixes ds :: draws and x y vx vy :: real and s :: sim
  assumes "double_draws ds"
  defines "i \<equiv> \<lfloor>nearest (d_type ds * 4)\<rfloor>"
  defines "type \<equiv> [granite, marble, obsidian, sandstone] ! nat i"
  defines "radius \<equiv> nearest (15 + nearest (d_radius ds * 25))"
  defines "r \<equiv> \<lparr>rock_id = nearest (d_now ds + d_id ds), rock_x = x, rock_y = y, rock_vx = vx,
     rock_vy = vy, rock_radius = radius, rock_color = color (ROCK_TYPES type),
     rock_rotation = 0,
     rock_rotationSpeed = nearest (nearest (d_rot ds - 1 / 2) * (7205759403792794 / 2 ^ 56)),
     rock_mass = nearest (radius * nearest (density (ROCK_TYPES type))), rock_type = type\<rparr>"
  shows "createRockD ds x y vx vy s
      = Inr (s\<lparr>rocksRef := rocksRef s @ [r], rockCount := Suc (length (rocksRef s))\<rparr>)"
    and "15 \<le> radius" and "radius \<le> 40"
    and "\<bar>nearest (nearest (d_rot ds - 1 / 2) * (7205759403792794 / 2 ^ 56))\<bar>
           \<le> 7205759403792794 / 2 ^ 57"
    and "\<bar>nearest (density (ROCK_TYPES type)) - density (ROCK_TYPES type)\<bar> \<le> 2 / 2 ^ 53"
    and "\<bar>radius * nearest (density (ROCK_TYPES type))\<bar> \<le> 80"
proof -
  from assms(1) have t: "isDouble (d_type ds)" "0 \<le> d_type ds" "d_type ds < 1"
    and rad: "0 \<le> d_radius ds" "d_radius ds < 1"
    and ident: "0 \<le> d_id ds" "d_id ds < 1" "\<bar>d_now ds\<bar> \<le> 2 ^ 53"
    and rot: "0 \<le> d_rot ds" "d_rot ds < 1"
    by (simp_all add: double_draws_def random_draws_def unit_draw_def)
  text \<open>Line 37: the index.\<close>
  from double_below_1 [OF t(1,3)] have "d_type ds * 4 \<le> 4 - 1 / 2 ^ 51"
    by simp
  moreover have "(4::real) - 1 / 2 ^ 51 = of_int (2 ^ 53 - 1) * 2 powi (- 51)"
    by (simp add: power_int_minus field_simps)
  ultimately have "\<bar>d_type ds * 4\<bar> \<le> of_int (2 ^ 53 - 1) * 2 powi (- 51)"
    using t(2) by simp
  from nearest_abs_le [OF this, of "2 ^ 53 - 1" "- 51"]
  have "\<bar>nearest (d_type ds * 4)\<bar> \<le> of_int (2 ^ 53 - 1) * 2 powi (- 51)"
    by simp
  also have "\<dots> < (4::real)"
    by (simp add: power_int_minus field_simps)
  finally have below: "nearest (d_type ds * 4) < 4"
    by simp
  from t(2) have above: "0 \<le> nearest (d_type ds * 4)"
    by (intro nearest_nonneg) simp
  from above below have i: "0 \<le> i" "i < 4"
    by (simp_all add: i_def floor_less_iff)
  from t(2,3) have "\<bar>d_type ds * 4\<bar> \<le> 2 powi 2"
    by simp
  from rd_pow2 [OF this]
  have k: "jfloor (jmul (Fin (d_type ds))
                    (Fin (real (length [granite, marble, obsidian, sandstone])))) = Fin (of_int i)"
    by (simp add: i_def)
  text \<open>Line 38: the radius.\<close>
  define w where "w = nearest (d_radius ds * 25)"
  from rad have "\<bar>d_radius ds * 25\<bar> \<le> of_int 25 * 2 powi 0"
    by simp
  from rd_finite [OF this, of 25 0] have w_rd: "rd (d_radius ds * 25) = Fin w" and "\<bar>w\<bar> \<le> 25"
    using maxDouble_big by (simp_all add: w_def)
  moreover from rad(1) have "0 \<le> w"
    unfolding w_def by (intro nearest_nonneg) simp
  ultimately have w: "0 \<le> w" "w \<le> 25"
    by simp_all
  from w show low: "15 \<le> radius"
    unfolding radius_def w_def [symmetric] by (intro nearest_lower [of 15 _ 15 0]) simp_all
  from w show high: "radius \<le> 40"
    unfolding radius_def w_def [symmetric] by (intro nearest_upper [of _ 40 40 0]) simp_all
  from w have "\<bar>15 + w\<bar> \<le> 2 powi 6"
    by simp
  from rd_pow2 [OF this] have "rd (15 + w) = Fin radius"
    by (simp add: radius_def w_def)
  with w_rd have radius: "jadd (lit 15) (jmul (Fin (d_radius ds)) (lit 25)) = Fin radius"
    by (simp add: lit_spawn)
  text \<open>Line 41: the id.\<close>
  from ident have "\<bar>d_now ds + d_id ds\<bar> \<le> 2 powi 54"
    by simp
  from rd_pow2 [OF this]
  have id_rd: "jadd (Fin (d_now ds)) (Fin (d_id ds)) = Fin (nearest (d_now ds + d_id ds))"
    by simp
  text \<open>Line 49: the rotation speed.\<close>
  define h where "h = nearest (d_rot ds - 1 / 2)"
  from rot have "\<bar>d_rot ds - 1 / 2\<bar> \<le> 1 / 2"
    by linarith
  then have "\<bar>d_rot ds - 1 / 2\<bar> \<le> 2 powi (- 1)"
    by (simp only: power_int_minus power_int_1_right inverse_eq_divide)
  from rd_pow2 [OF this] have h_rd: "rd (d_rot ds - 1 / 2) = Fin h" and h: "\<bar>h\<bar> \<le> 1 / 2"
    by (simp_all add: h_def power_int_minus)
  have "\<bar>7205759403792794 / 2 ^ 56 :: real\<bar> \<le> 7205759403792794 / 2 ^ 56"
    by simp
  from abs_mult_le [OF h this]
  have "\<bar>h * (7205759403792794 / 2 ^ 56)\<bar> \<le> of_int 7205759403792794 * 2 powi (- 57)"
    by (simp add: power_int_minus)
  from rd_finite [OF this, of 7205759403792794 "- 57"]
  have spin_rd: "rd (h * (7205759403792794 / 2 ^ 56))
        = Fin (nearest (h * (7205759403792794 / 2 ^ 56)))"
    and "\<bar>nearest (h * (7205759403792794 / 2 ^ 56))\<bar> \<le> of_int 7205759403792794 * 2 powi (- 57)"
    using maxDouble_big by (simp_all add: power_int_minus)
  then show spin_abs: "\<bar>nearest (nearest (d_rot ds - 1 / 2) * (7205759403792794 / 2 ^ 56))\<bar>
           \<le> 7205759403792794 / 2 ^ 57"
    by (simp add: h_def power_int_minus)
  from h_rd spin_rd
  have spin: "jmul (jsub (Fin (d_rot ds)) (lit 0.5)) (lit 0.1)
      = Fin (nearest (nearest (d_rot ds - 1 / 2) * (7205759403792794 / 2 ^ 56)))"
    by (simp add: jsub_def lit_half lit_spawn h_def)
  text \<open>Line 50: the mass.\<close>
  define dn where "dn = nearest (density (ROCK_TYPES type))"
  from density_range [of type] have "\<bar>density (ROCK_TYPES type)\<bar> \<le> 2 powi 1"
    by simp
  from rd_pow2 [OF this] have dn_rd: "lit (density (ROCK_TYPES type)) = Fin dn" and dn: "\<bar>dn\<bar> \<le> 2"
    by (simp_all add: lit_def dn_def)
  from nearest_error [of "density (ROCK_TYPES type)"] density_range [of type]
  show "\<bar>nearest (density (ROCK_TYPES type)) - density (ROCK_TYPES type)\<bar> \<le> 2 / 2 ^ 53"
    by simp
  from low high have "\<bar>radius\<bar> \<le> 40"
    by simp
  from abs_mult_le [OF this dn] show "\<bar>radius * nearest (density (ROCK_TYPES type))\<bar> \<le> 80"
    by (simp add: dn_def)
  then have "\<bar>radius * dn\<bar> \<le> 2 powi 7"
    by (simp add: dn_def)
  from rd_pow2 [OF this] dn_rd
  have mass: "jmul (Fin radius) (lit (density (ROCK_TYPES type))) = Fin (nearest (radius * dn))"
    by simp
  from i have range: "\<not> (real_of_int i < 0 \<or> real (length [granite, marble, obsidian, sandstone]) \<le> real_of_int i)"
    by simp
  have type: "[granite, marble, obsidian, sandstone] ! nat \<lfloor>real_of_int i\<rfloor> = type"
    by (simp add: type_def)
  show "createRockD ds x y vx vy s
      = Inr (s\<lparr>rocksRef := rocksRef s @ [r], rockCount := Suc (length (rocksRef s))\<rparr>)"
    unfolding createRockD_def Let_def
    by (simp only: k jsnum.case range if_False type radius id_rd spin mass prod.case)
      (simp add: r_def dn_def)
qed

text \<open>
  C3 (amended). With every \<open>Math.random()\<close> result a double in \<open>[0, 1)\<close> and \<open>Date.now()\<close>
  a double of magnitude at most \<open>2\<^sup>5\<^sup>3\<close>, \<open>createRock\<close> does not fail and appends exactly one
  rock, at the given position and velocity, with radius in the closed interval
  \<open>[15, 40]\<close>, a material of the catalog, mass equal to the double product of the radius
  and the density of that material (within \<open>2\<^sup>-\<^sup>4\<^sup>5\<close> of the exact product), and rotation
  speed between the doubles \<open>-0.05\<close> and \<open>0.05\<close>.
\<close>

theorem createRockD_spec:
  assumes "double_draws ds"
  shows "\<exists>r. createRockD ds x y vx vy s
            = Inr (s\<lparr>rocksRef := rocksRef s @ [r], rockCount := Suc (length (rocksRef s))\<rparr>)
          \<and> 15 \<le> rock_radius r \<and> rock_radius r \<le> 40
          \<and> rock_type r \<in> {granite, marble, obsidian, sandstone}
          \<and> rock_mass r = nearest (rock_radius r * nearest (density (ROCK_TYPES (rock_type r))))
          \<and> \<bar>rock_mass r - rock_radius r * density (ROCK_TYPES (rock_type r))\<bar> \<le> 1 / 2 ^ 45
          \<and> - nearest 0.05 \<le> rock_rotationSpeed r \<and> rock_rotationSpeed r \<le> nearest 0.05
          \<and> rock_x r = x \<and> rock_y r = y \<and> rock_vx r = vx \<and> rock_vy r = vy"
proof -
  define type where "type = [granite, marble, obsidian, sandstone] ! nat \<lfloor>nearest (d_type ds * 4)\<rfloor>"
  define radius where "radius = nearest (15 + nearest (d_radius ds * 25))"
  define dn where "dn = nearest (density (ROCK_TYPES type))"
  define spin where "spin = nearest (nearest (d_rot ds - 1 / 2) * (7205759403792794 / 2 ^ 56))"
  define r where "r = \<lparr>rock_id = nearest (d_now ds + d_id ds), rock_x = x, rock_y = y,
     rock_vx = vx, rock_vy = vy, rock_radius = radius, rock_color = color (ROCK_TYPES type),
     rock_rotation = 0, rock_rotationSpeed = spin, rock_mass = nearest (radius * dn),
     rock_type = type\<rparr>"
  note made = createRockD_run(1) [OF assms, of x y vx vy s,
      folded type_def radius_def dn_def spin_def, folded r_def]
  note run = made createRockD_run(2-6) [OF assms, folded type_def radius_def dn_def spin_def]
  have catalog: "rock_type r \<in> {granite, marble, obsidian, sandstone}"
    by (cases "rock_type r") simp_all
  have mass: "rock_mass r = nearest (rock_radius r * nearest (density (ROCK_TYPES (rock_type r))))"
    by (simp add: r_def dn_def)
  from abs_error_mult [OF run(5), of radius 40] run(2,3)
  have "\<bar>dn * radius - density (ROCK_TYPES type) * radius\<bar> \<le> 2 / 2 ^ 53 * 40"
    by simp
  then have one: "\<bar>radius * dn - radius * density (ROCK_TYPES type)\<bar> \<le> 80 / 9007199254740992"
    by (simp add: mult.commute)
  have "\<bar>nearest (radius * dn) - radius * dn\<bar> \<le> \<bar>radius * dn\<bar> / 2 ^ 53 + 1 / 2 ^ 1075"
    by (rule nearest_error)
  also have "\<bar>radius * dn\<bar> / 2 ^ 53 \<le> 80 / 2 ^ 53"
    using run(6) by (intro divide_right_mono) simp_all
  finally have two: "\<bar>nearest (radius * dn) - radius * dn\<bar> \<le> 81 / 9007199254740992"
    by simp
  have "\<bar>nearest (radius * dn) - radius * density (ROCK_TYPES type)\<bar> \<le> 256 / 9007199254740992"
    by (rule abs_chain [OF two one]) simp
  then have exact: "\<bar>rock_mass r - rock_radius r * density (ROCK_TYPES (rock_type r))\<bar> \<le> 1 / 2 ^ 45"
    by (simp add: r_def)
  from run(4) have rotation: "- nearest 0.05 \<le> rock_rotationSpeed r"
      "rock_rotationSpeed r \<le> nearest 0.05"
    by (simp_all add: r_def nearest_twentieth)
  have start: "rock_x r = x \<and> rock_y r = y \<and> rock_vx r = vx \<and> rock_vy r = vy"
    by (simp add: r_def)
  from run(2,3) have radius: "15 \<le> rock_radius r" "rock_radius r \<le> 40"
    by (simp_all add: r_def)
  from run(1) radius catalog mass exact rotation start show ?thesis
    by blast
qed

theorem createRockD_spec_witness:
  "double_draws c3_dbl_draws \<and>
   (\<exists>r. createRockD c3_dbl_draws 50 (- 50) 3 1 c3_sim
            = Inr (c3_sim\<lparr>rocksRef := rocksRef c3_sim @ [r],
                          rockCount := Suc (length (rocksRef c3_sim))\<rparr>)
          \<and> 15 \<le> rock_radius r \<and> rock_radius r \<le> 40
          \<and> rock_type r \<in> {granite, marble, obsidian, sandstone}
          \<and> rock_mass r = nearest (rock_radius r * nearest (density (ROCK_TYPES (rock_type r))))
          \<and> \<bar>rock_mass r - rock_radius r * density (ROCK_TYPES (rock_type r))\<bar> \<le> 1 / 2 ^ 45
          \<and> - nearest 0.05 \<le> rock_rotationSpeed r \<and> rock_rotationSpeed r \<le> nearest 0.05
          \<and> rock_x r = 50 \<and> rock_y r = - 50 \<and> rock_vx r = 3 \<and> rock_vy r = 1)"
proof -
  have h: "double_draws c3_dbl_draws"
    by (simp add: double_draws_def random_draws_def unit_draw_def c3_dbl_draws_def
        isDouble_now isDouble_fractions)
  from h createRockD_spec [OF h, of 50 "- 50" 3 1 c3_sim] show ?thesis
    by (intro conjI)
qed

lemma c3_top_run:
  "createRockD c3_top_draws 50 (- 50) 3 1 c3_sim
     = Inr (c3_sim\<lparr>rocksRef := [c3_top_rock], rockCount := 1\<rparr>)"
  by (simp add: createRockD_def Let_def c3_top_draws_def c3_sim_def c3_top_rock_def ROCK_TYPES_def
      jsub_def lit_def rd_eval nearest_0 nearest_evals nearest_at [of 40] nearest_at [of "- 2"]
      nearest_at [of "- 4"] nearest_at [of "- 6"] roundEven_def power_int_minus)

text \<open>
  The claim as stated fails: for the largest double below 1 as the radius draw, line 38
  rounds \<open>15 + u * 25\<close> to exactly 40.
\<close>

theorem createRockD_spec_counterexample:
  "double_draws c3_top_draws
   \<and> createRockD c3_top_draws 50 (- 50) 3 1 c3_sim
       = Inr (c3_sim\<lparr>rocksRef := [c3_top_rock], rockCount := 1\<rparr>)
   \<and> rock_radius c3_top_rock = 40
   \<and> \<not> rock_radius c3_top_rock < 40"
proof -
  have "double_draws c3_top_draws"
    unfolding double_draws_def random_draws_def unit_draw_def c3_top_draws_def draws.select_convs
    by (intro conjI isDouble_now isDouble_fractions) simp_all
  with c3_top_run show ?thesis
    by (simp add: c3_top_rock_def)
qed

subsection \<open>The velocity exchange\<close>

text \<open>
  The value of the expression of lines 127--130 and 132--135 on moderate operands: every
  operation rounds to a finite double.
\<close>

lemma exchange_value:
  assumes v: "\<bar>v\<bar> \<le> 2 ^ 1000" and v': "\<bar>v'\<bar> \<le> 2 ^ 1000"
    and m: "1 \<le> m" "m \<le> 64" and m': "1 \<le> m'" "m' \<le> 64"
    and M: "2 \<le> M" "M \<le> 128"
  shows "jmul (jdiv (jadd (jmul (Fin v) (jsub (Fin m) (Fin m')))
                          (jmul (jmul (lit 2) (Fin m')) (Fin v')))
                    (Fin M))
              (lit 0.8)
         = Fin (nearest (nearest (nearest (nearest (v * nearest (m - m'))
                                            + nearest (nearest (2 * m') * v')) / M)
                         * (7205759403792794 / 2 ^ 53)))"
proof -
  from m m' have "\<bar>m - m'\<bar> \<le> 2 powi 6"
    by simp
  note d = jsub_Fin [OF this]
  define d' where "d' = nearest (m - m')"
  from d have d1: "jsub (Fin m) (Fin m') = Fin d'" and d2: "\<bar>d'\<bar> \<le> 2 ^ 6"
    by (simp_all add: d'_def)
  from abs_mult_le [OF v d2] have "\<bar>v * d'\<bar> \<le> 2 powi 1006"
    by simp
  note a = jmul_Fin [OF this]
  define a' where "a' = nearest (v * d')"
  from a have a1: "jmul (Fin v) (Fin d') = Fin a'" and a2: "\<bar>a'\<bar> \<le> 2 ^ 1006"
    by (simp_all add: a'_def)
  from m' have "\<bar>2 * m'\<bar> \<le> 2 powi 7"
    by simp
  note t = jmul_Fin [OF this]
  define t' where "t' = nearest (2 * m')"
  from t have t1: "jmul (Fin 2) (Fin m') = Fin t'" and t2: "\<bar>t'\<bar> \<le> 2 ^ 7"
    by (simp_all add: t'_def)
  from abs_mult_le [OF t2 v'] have "\<bar>t' * v'\<bar> \<le> 2 powi 1007"
    by simp
  note b = jmul_Fin [OF this]
  define b' where "b' = nearest (t' * v')"
  from b have b1: "jmul (Fin t') (Fin v') = Fin b'" and b2: "\<bar>b'\<bar> \<le> 2 ^ 1007"
    by (simp_all add: b'_def)
  from a2 b2 have "\<bar>a' + b'\<bar> \<le> 2 powi 1008"
    by simp
  note s = jadd_Fin [OF this]
  define s' where "s' = nearest (a' + b')"
  from s have s1: "jadd (Fin a') (Fin b') = Fin s'" and s2: "\<bar>s'\<bar> \<le> 2 ^ 1008"
    by (simp_all add: s'_def)
  from M have Mnz: "M \<noteq> 0" and "1 / M \<le> 1 / 2"
    by (simp_all add: field_simps)
  then have "\<bar>1 / M\<bar> \<le> 1 / 2"
    using M by simp
  from abs_mult_le [OF s2 this] have "\<bar>s' / M\<bar> \<le> 2 powi 1007"
    by simp
  note q = jdiv_Fin [OF Mnz this]
  define q' where "q' = nearest (s' / M)"
  from q have q1: "jdiv (Fin s') (Fin M) = Fin q'" and q2: "\<bar>q'\<bar> \<le> 2 ^ 1007"
    by (simp_all add: q'_def)
  have "\<bar>7205759403792794 / 2 ^ 53 :: real\<bar> \<le> 1"
    by simp
  from abs_mult_le [OF q2 this] have "\<bar>q' * (7205759403792794 / 2 ^ 53)\<bar> \<le> 2 powi 1007"
    by simp
  note r = jmul_Fin [OF this]
  from r(1) have "jmul (Fin q') (Fin (7205759403792794 / 2 ^ 53))
      = Fin (nearest (q' * (7205759403792794 / 2 ^ 53)))"
    by simp
  then show ?thesis
    unfolding lit_values d1 a1 t1 b1 s1 q1 unfolding q'_def s'_def a'_def b'_def t'_def d'_def .
qed


text \<open>The total mass of two moderate rocks, as line 126 computes it.\<close>

lemma totalMass_moderate:
  assumes "1 \<le> m" "m \<le> 64" "1 \<le> m'" "m' \<le> 64"
  shows "jadd (Fin m) (Fin m') = Fin (nearest (m + m'))"
    and "2 \<le> nearest (m + m')" and "nearest (m + m') \<le> 128"
    and "\<bar>nearest (m + m') - (m + m')\<bar> \<le> (m + m') / 2 ^ 53"
proof -
  from assms have s: "2 \<le> m + m'" "m + m' \<le> 128"
    by simp_all
  from s show "2 \<le> nearest (m + m')"
    by (intro nearest_lower [of 2 "m + m'" 1 1]) simp_all
  from s show "nearest (m + m') \<le> 128"
    by (intro nearest_upper [of "m + m'" 128 1 7]) simp_all
  from s have "rd (m + m') = Fin (nearest (m + m'))"
    by (intro rd_pow2 [of "m + m'" 7]) simp_all
  then show "jadd (Fin m) (Fin m') = Fin (nearest (m + m'))"
    by simp
  from s nearest_error_normal [of "m + m'"]
  show "\<bar>nearest (m + m') - (m + m')\<bar> \<le> (m + m') / 2 ^ 53"
    by simp
qed

text \<open>What a resolved collision stores (lines 120--135).\<close>

lemma resolvePairD_hit:
  assumes "resolvePairD rock other = Inr (rock', other', True)"
  shows "rock_mass rock' = rock_mass rock" and "rock_mass other' = rock_mass other"
    and "jmul (jdiv (jadd (jmul (Fin (rock_vx rock))
                            (jsub (Fin (rock_mass rock)) (Fin (rock_mass other))))
                          (jmul (jmul (lit 2) (Fin (rock_mass other))) (Fin (rock_vx other))))
                    (jadd (Fin (rock_mass rock)) (Fin (rock_mass other))))
              (lit 0.8) = Fin (rock_vx rock')"
    and "jmul (jdiv (jadd (jmul (Fin (rock_vy rock))
                            (jsub (Fin (rock_mass rock)) (Fin (rock_mass other))))
                          (jmul (jmul (lit 2) (Fin (rock_mass other))) (Fin (rock_vy other))))
                    (jadd (Fin (rock_mass rock)) (Fin (rock_mass other))))
              (lit 0.8) = Fin (rock_vy rock')"
    and "jmul (jdiv (jadd (jmul (Fin (rock_vx other))
                            (jsub (Fin (rock_mass other)) (Fin (rock_mass rock))))
                          (jmul (jmul (lit 2) (Fin (rock_mass rock))) (Fin (rock_vx rock))))
                    (jadd (Fin (rock_mass rock)) (Fin (rock_mass other))))
              (lit 0.8) = Fin (rock_vx other')"
    and "jmul (jdiv (jadd (jmul (Fin (rock_vy other))
                            (jsub (Fin (rock_mass other)) (Fin (rock_mass rock))))
                          (jmul (jmul (lit 2) (Fin (rock_mass rock))) (Fin (rock_vy rock))))
                    (jadd (Fin (rock_mass rock)) (Fin (rock_mass other))))
              (lit 0.8) = Fin (rock_vy other')"
  using assms unfolding resolvePairD_def Let_def
  by (auto split: if_splits jsnum.splits)

subsection \<open>Coincident centres\<close>






subsection \<open>Collision response: momentum\<close>

text \<open>
  Error analysis of the expression of lines 127--130 and 132--135, for any rounding
  \<open>R\<close> with relative error \<open>2\<^sup>-\<^sup>5\<^sup>3\<close> and absolute error \<open>eta\<close>.
\<close>

lemma exchange_analysis:
  fixes R :: "real \<Rightarrow> real" and eta W v v' m m' Mh c :: real
  assumes rnd: "\<And>x. \<bar>R x - x\<bar> \<le> \<bar>x\<bar> / 2 ^ 53 + eta"
    and eta: "0 \<le> eta" "eta \<le> 1 / 2 ^ 53"
    and v: "\<bar>v\<bar> \<le> W" and v': "\<bar>v'\<bar> \<le> W"
    and m: "1 \<le> m" "m \<le> 64" and m': "1 \<le> m'" "m' \<le> 64"
    and Mh: "\<bar>Mh - (m + m')\<bar> \<le> (m + m') / 2 ^ 53" "2 \<le> Mh"
    and c: "\<bar>c - 4 / 5\<bar> \<le> 1 / 2 ^ 53"
  shows "\<bar>R (R (R (R (v * R (m - m')) + R (R (2 * m') * v')) / Mh) * c)
          - 4 / 5 * ((v * (m - m') + 2 * m' * v') / (m + m'))\<bar>
         \<le> 700 * W / 2 ^ 53 + 8 * eta"
proof -
  have rnd': "\<bar>R x - x\<bar> \<le> B / 9007199254740992 + eta" if "\<bar>x\<bar> \<le> B" for x B
  proof -
    from that have "\<bar>x\<bar> / 9007199254740992 \<le> B / 9007199254740992"
      by (rule divide_right_mono) simp
    with rnd [of x] show ?thesis
      by simp
  qed
  from eta have eta': "0 \<le> eta" "eta \<le> 1 / 9007199254740992"
    by simp_all
  from Mh(1) have Mh': "\<bar>Mh - (m + m')\<bar> \<le> (m + m') / 9007199254740992"
    by simp
  from c have c': "\<bar>c - 4 / 5\<bar> \<le> 1 / 9007199254740992"
    by simp
  from v have W: "0 \<le> W"
    by simp
  define d where "d = R (m - m')"
  from m m' have "\<bar>m - m'\<bar> \<le> 63"
    by simp
  from rnd' [OF this] eta' have d: "\<bar>d - (m - m')\<bar> \<le> 64 / 9007199254740992"
    unfolding d_def by linarith
  with m m' have d_abs: "\<bar>d\<bar> \<le> 64"
    by linarith
  define a1 where "a1 = v * d"
  from abs_error_mult [OF d v] have a1: "\<bar>a1 - v * (m - m')\<bar> \<le> 64 * W / 9007199254740992"
    by (simp add: a1_def mult.commute)
  from abs_mult_le [OF v d_abs] have a1_abs: "\<bar>a1\<bar> \<le> 64 * W"
    by (simp add: a1_def mult.commute)
  define a where "a = R a1"
  from rnd' [OF a1_abs] a1 have a: "\<bar>a - v * (m - m')\<bar> \<le> 128 * W / 9007199254740992 + eta"
    unfolding a_def by linarith
  define t where "t = R (2 * m')"
  from m' have "\<bar>2 * m'\<bar> \<le> 128"
    by simp
  from rnd' [OF this] eta' have t: "\<bar>t - 2 * m'\<bar> \<le> 129 / 9007199254740992"
    unfolding t_def by linarith
  with m' have t_abs: "\<bar>t\<bar> \<le> 129"
    by linarith
  define b1 where "b1 = t * v'"
  from abs_error_mult [OF t v'] have b1: "\<bar>b1 - 2 * m' * v'\<bar> \<le> 129 * W / 9007199254740992"
    by (simp add: b1_def)
  from abs_mult_le [OF t_abs v'] have b1_abs: "\<bar>b1\<bar> \<le> 129 * W"
    by (simp add: b1_def)
  define b where "b = R b1"
  from rnd' [OF b1_abs] b1 have b: "\<bar>b - 2 * m' * v'\<bar> \<le> 258 * W / 9007199254740992 + eta"
    unfolding b_def by linarith
  define S where "S = v * (m - m') + 2 * m' * v'"
  from m m' have "\<bar>m - m'\<bar> \<le> 63" and "\<bar>2 * m'\<bar> \<le> 128"
    by simp_all
  from abs_mult_le [OF v this(1)] abs_mult_le [OF this(2) v']
  have S_abs: "\<bar>S\<bar> \<le> 191 * W"
    unfolding S_def by linarith
  from a b have ab: "\<bar>a + b - S\<bar> \<le> 386 * W / 9007199254740992 + 2 * eta"
    unfolding S_def by linarith
  have ab_abs: "\<bar>a + b\<bar> \<le> 192 * W + 2 * eta"
    using W by (intro abs_bound [OF ab S_abs]) linarith
  define s where "s = R (a + b)"
  have s: "\<bar>s - S\<bar> \<le> 578 * W / 9007199254740992 + 4 * eta"
    unfolding s_def using eta' by (intro abs_chain [OF rnd' [OF ab_abs] ab]) (simp add: add_divide_distrib; linarith)
  define Mx where "Mx = m + m'"
  from m m' have Mx: "2 \<le> Mx" "Mx \<le> 128"
    by (simp_all add: Mx_def)
  define Q where "Q = S / Mx"
  from S_abs Mx have Q_abs: "\<bar>Q\<bar> \<le> 96 * W"
  proof -
    have "\<bar>Q\<bar> = \<bar>S\<bar> / Mx"
      using Mx by (simp add: Q_def)
    also have "\<dots> \<le> \<bar>S\<bar> / 2"
      using Mx by (intro divide_left_mono) simp_all
    finally show ?thesis
      using S_abs by linarith
  qed
  have drift: "\<bar>Q * (Mh - Mx)\<bar> \<le> 191 * W / 9007199254740992"
  proof -
    have "Q * (Mh - Mx) = S * ((Mh - Mx) / Mx)"
      by (simp add: Q_def)
    moreover have "\<bar>(Mh - Mx) / Mx\<bar> \<le> 1 / 9007199254740992"
      using Mh' Mx by (simp add: Mx_def [symmetric] field_simps)
    ultimately show ?thesis
      using abs_mult_le [OF S_abs, of "(Mh - Mx) / Mx" "1 / 9007199254740992"] by simp
  qed
  define q1 where "q1 = s / Mh"
  have "q1 - Q = ((s - S) - Q * (Mh - Mx)) / Mh"
    using Mh(2) Mx by (simp add: q1_def Q_def field_simps)
  then have "\<bar>q1 - Q\<bar> = \<bar>(s - S) - Q * (Mh - Mx)\<bar> / Mh"
    using Mh(2) by simp
  also have "\<dots> \<le> \<bar>(s - S) - Q * (Mh - Mx)\<bar> / 2"
    using Mh(2) by (intro divide_left_mono) simp_all
  also have "\<dots> \<le> (769 * W / 9007199254740992 + 4 * eta) / 2"
  proof (rule divide_right_mono)
    from s drift show "\<bar>s - S - Q * (Mh - Mx)\<bar> \<le> 769 * W / 9007199254740992 + 4 * eta"
      by linarith
  qed simp
  also have "\<dots> \<le> 385 * W / 9007199254740992 + 2 * eta"
    using W by (simp add: add_divide_distrib)
  finally have q1: "\<bar>q1 - Q\<bar> \<le> 385 * W / 9007199254740992 + 2 * eta" .
  have q1_abs: "\<bar>q1\<bar> \<le> 97 * W + 2 * eta"
    using W by (intro abs_bound [OF q1 Q_abs]) linarith
  define q where "q = R q1"
  have q: "\<bar>q - Q\<bar> \<le> 482 * W / 9007199254740992 + 4 * eta"
    unfolding q_def using eta' by (intro abs_chain [OF rnd' [OF q1_abs] q1]) (simp add: add_divide_distrib; linarith)
  have q_abs: "\<bar>q\<bar> \<le> 97 * W + 4 * eta"
    using W by (intro abs_bound [OF q Q_abs]) linarith
  define r1 where "r1 = q * c"
  from c' have c_abs: "\<bar>c\<bar> \<le> 1"
    by linarith
  have "r1 - 4 / 5 * Q = (q * c - Q * c) + (Q * c - Q * (4 / 5))"
    by (simp add: r1_def)
  moreover from abs_error_mult [OF q c_abs]
  have "\<bar>q * c - Q * c\<bar> \<le> 482 * W / 9007199254740992 + 4 * eta"
    by simp
  moreover from abs_error_mult [OF c' Q_abs]
  have "\<bar>Q * c - Q * (4 / 5)\<bar> \<le> 96 * W / 9007199254740992"
    by (simp add: mult.commute)
  ultimately have r1: "\<bar>r1 - 4 / 5 * Q\<bar> \<le> 578 * W / 9007199254740992 + 4 * eta"
    by linarith
  from abs_mult_le [OF q_abs c_abs] have r1_abs: "\<bar>r1\<bar> \<le> 97 * W + 4 * eta"
    by (simp add: r1_def)
  have "\<bar>R r1 - 4 / 5 * Q\<bar> \<le> 700 * W / 9007199254740992 + 8 * eta"
    using eta' W by (intro abs_chain [OF rnd' [OF r1_abs] r1]) (simp add: add_divide_distrib; linarith)
  then have "\<bar>R r1 - 4 / 5 * Q\<bar> \<le> 700 * W / 2 ^ 53 + 8 * eta"
    by simp
  then show ?thesis
    by (simp only: r1_def q_def q1_def s_def a_def b_def a1_def b1_def t_def d_def Q_def S_def
        Mx_def)
qed

text \<open>The exact results of the two expressions carry \<open>0.8\<close> times the momentum.\<close>

lemma momentum_analysis:
  fixes z1 z2 v v' m m' E :: real
  assumes z1: "\<bar>z1 - 4 / 5 * ((v * (m - m') + 2 * m' * v') / (m + m'))\<bar> \<le> E"
    and z2: "\<bar>z2 - 4 / 5 * ((v' * (m' - m) + 2 * m * v) / (m' + m))\<bar> \<le> E"
    and m: "1 \<le> m" "m \<le> 64" and m': "1 \<le> m'" "m' \<le> 64"
  shows "\<bar>m * z1 + m' * z2 - 4 / 5 * (m * v + m' * v')\<bar> \<le> 128 * E"
proof -
  define X1 where "X1 = 4 / 5 * ((v * (m - m') + 2 * m' * v') / (m + m'))"
  define X2 where "X2 = 4 / 5 * ((v' * (m' - m) + 2 * m * v) / (m' + m))"
  define M where "M = m + m'"
  define p where "p = v * (m - m') + 2 * m' * v'"
  define q where "q = v' * (m' - m) + 2 * m * v"
  from m m' have M: "M \<noteq> 0"
    by (simp add: M_def)
  have num: "m * p + m' * q = (m * v + m' * v') * M"
    unfolding M_def p_def q_def by (simp add: algebra_simps)
  have "m * (4 / 5 * (p / M)) + m' * (4 / 5 * (q / M)) = 4 / 5 * ((m * p + m' * q) / M)"
    by (simp add: add_divide_distrib)
  also have "\<dots> = 4 / 5 * (m * v + m' * v')"
    using M by (simp add: num)
  finally have exact: "m * X1 + m' * X2 = 4 / 5 * (m * v + m' * v')"
    unfolding X1_def X2_def M_def p_def q_def by (simp only: add.commute [of m' m])
  from m m' have "\<bar>m\<bar> \<le> 64" and "\<bar>m'\<bar> \<le> 64"
    by simp_all
  from abs_error_mult [OF z1 [folded X1_def] this(1)] abs_error_mult [OF z2 [folded X2_def] this(2)]
  have "\<bar>z1 * m - X1 * m\<bar> \<le> E * 64" and "\<bar>z2 * m' - X2 * m'\<bar> \<le> E * 64" .
  moreover have "m * z1 + m' * z2 - 4 / 5 * (m * v + m' * v')
      = (z1 * m - X1 * m) + (z2 * m' - X2 * m')"
    unfolding exact [symmetric] by (simp add: algebra_simps)
  ultimately show ?thesis
    by linarith
qed

lemma momentum_rounded:
  assumes v: "\<bar>v\<bar> \<le> 2 ^ 1000" and v': "\<bar>v'\<bar> \<le> 2 ^ 1000"
    and m: "1 \<le> m" "m \<le> 64" and m': "1 \<le> m'" "m' \<le> 64"
    and z1: "jmul (jdiv (jadd (jmul (Fin v) (jsub (Fin m) (Fin m')))
                              (jmul (jmul (lit 2) (Fin m')) (Fin v')))
                        (jadd (Fin m) (Fin m')))
                  (lit 0.8) = Fin z1"
    and z2: "jmul (jdiv (jadd (jmul (Fin v') (jsub (Fin m') (Fin m)))
                              (jmul (jmul (lit 2) (Fin m)) (Fin v)))
                        (jadd (Fin m) (Fin m')))
                  (lit 0.8) = Fin z2"
  shows "\<bar>m * z1 + m' * z2 - 0.8 * (m * v + m' * v')\<bar>
         \<le> (\<bar>v\<bar> + \<bar>v'\<bar>) / 2 ^ 36 + 1 / 2 ^ 1065"
proof -
  define W where "W = \<bar>v\<bar> + \<bar>v'\<bar>"
  define M where "M = nearest (m + m')"
  define E where "E = 700 * W / 2 ^ 53 + 8 * (1 / 2 ^ 1075)"
  have W: "\<bar>v\<bar> \<le> W" "\<bar>v'\<bar> \<le> W" "0 \<le> W"
    by (simp_all add: W_def)
  note total = totalMass_moderate [OF m m', folded M_def]
  have total': "\<bar>M - (m' + m)\<bar> \<le> (m' + m) / 2 ^ 53"
    using total(4) by (simp add: add.commute)
  have c: "\<bar>7205759403792794 / 2 ^ 53 - 4 / 5 :: real\<bar> \<le> 1 / 2 ^ 53"
    by simp
  have eta: "(0::real) \<le> 1 / 2 ^ 1075" "(1::real) / 2 ^ 1075 \<le> 1 / 2 ^ 53"
    by simp_all
  from trans [OF sym [OF z1 [unfolded total(1)]] exchange_value [OF v v' m m' total(2,3)]]
  have "z1 = nearest (nearest (nearest (nearest (v * nearest (m - m'))
              + nearest (nearest (2 * m') * v')) / M) * (7205759403792794 / 2 ^ 53))"
    by (simp only: jsnum.inject)
  with exchange_analysis [of nearest "1 / 2 ^ 1075" v W v' m m' M "7205759403792794 / 2 ^ 53",
      OF nearest_error eta W(1,2) m m' total(4,2) c]
  have e1: "\<bar>z1 - 4 / 5 * ((v * (m - m') + 2 * m' * v') / (m + m'))\<bar> \<le> E"
    by (simp only: E_def)
  from trans [OF sym [OF z2 [unfolded total(1)]] exchange_value [OF v' v m' m total(2,3)]]
  have "z2 = nearest (nearest (nearest (nearest (v' * nearest (m' - m))
              + nearest (nearest (2 * m) * v)) / M) * (7205759403792794 / 2 ^ 53))"
    by (simp only: jsnum.inject)
  with exchange_analysis [of nearest "1 / 2 ^ 1075" v' W v m' m M "7205759403792794 / 2 ^ 53",
      OF nearest_error eta W(2,1) m' m total' total(2) c]
  have e2: "\<bar>z2 - 4 / 5 * ((v' * (m' - m) + 2 * m * v) / (m' + m))\<bar> \<le> E"
    by (simp only: E_def)
  from momentum_analysis [OF e1 e2 m m']
  have "\<bar>m * z1 + m' * z2 - 4 / 5 * (m * v + m' * v')\<bar> \<le> 128 * E" .
  also have "128 * E = 89600 * W / 2 ^ 53 + 1 / 2 ^ 1065"
    by (simp add: E_def)
  also have "\<dots> \<le> W / 2 ^ 36 + 1 / 2 ^ 1065"
    using W(3) by simp
  finally show ?thesis
    by (simp add: W_def)
qed

text \<open>
  C10 (amended). A resolved pairwise collision of two rocks in moderate motion scales the
  combined momentum of the pair by 0.8 up to the rounding of the double operations of the
  velocity formulas: in the x and in the y component, the momentum of the stored
  velocities differs from 0.8 times the momentum before by at most \<open>2\<^sup>-\<^sup>3\<^sup>6\<close> times the
  sum of the magnitudes of the two velocity components before, plus \<open>2\<^sup>-\<^sup>1\<^sup>0\<^sup>6\<^sup>5\<close>. The
  masses are unchanged.
\<close>

theorem collision_momentum_rounded:
  assumes "moderateMotion rock" and "moderateMotion other"
    and "resolvePairD rock other = Inr (rock', other', True)"
  shows "\<bar>(momentumX rock' + momentumX other') - 0.8 * (momentumX rock + momentumX other)\<bar>
           \<le> (\<bar>rock_vx rock\<bar> + \<bar>rock_vx other\<bar>) / 2 ^ 36 + 1 / 2 ^ 1065
       \<and> \<bar>(momentumY rock' + momentumY other') - 0.8 * (momentumY rock + momentumY other)\<bar>
           \<le> (\<bar>rock_vy rock\<bar> + \<bar>rock_vy other\<bar>) / 2 ^ 36 + 1 / 2 ^ 1065
       \<and> rock_mass rock' = rock_mass rock \<and> rock_mass other' = rock_mass other"
proof -
  note hit = resolvePairD_hit [OF assms(3)]
  from assms(1,2) have v: "\<bar>rock_vx rock\<bar> \<le> 2 ^ 1000" "\<bar>rock_vy rock\<bar> \<le> 2 ^ 1000"
      "\<bar>rock_vx other\<bar> \<le> 2 ^ 1000" "\<bar>rock_vy other\<bar> \<le> 2 ^ 1000"
    and m1: "1 \<le> rock_mass rock" "rock_mass rock \<le> 64"
    and m2: "1 \<le> rock_mass other" "rock_mass other \<le> 64"
    by (simp_all add: moderateMotion_def)
  have x: "\<bar>(momentumX rock' + momentumX other') - 0.8 * (momentumX rock + momentumX other)\<bar>
           \<le> (\<bar>rock_vx rock\<bar> + \<bar>rock_vx other\<bar>) / 2 ^ 36 + 1 / 2 ^ 1065"
    unfolding momentumX_def hit(1,2) by (rule momentum_rounded [OF v(1,3) m1 m2 hit(3,5)])
  have y: "\<bar>(momentumY rock' + momentumY other') - 0.8 * (momentumY rock + momentumY other)\<bar>
           \<le> (\<bar>rock_vy rock\<bar> + \<bar>rock_vy other\<bar>) / 2 ^ 36 + 1 / 2 ^ 1065"
    unfolding momentumY_def hit(1,2) by (rule momentum_rounded [OF v(2,4) m1 m2 hit(4,6)])
  from x y hit(1,2) show ?thesis
    by (intro conjI)
qed

lemma c10_dbl_pair: "resolvePairD c10_dblA c10_dblB = Inr (c10_dblA', c10_dblB', True)"
  by (simp add: resolvePairD_def Let_def c10_dblA_def c10_dblB_def c10_dblA'_def c10_dblB'_def
      jsub_def lit_def rd_eval nearest_0 nearest_evals roundEven_def atan2_def sqrt_900)

theorem collision_momentum_rounded_witness:
  "moderateMotion c10_dblA \<and> moderateMotion c10_dblB
   \<and> resolvePairD c10_dblA c10_dblB = Inr (c10_dblA', c10_dblB', True)
   \<and> \<bar>(momentumX c10_dblA' + momentumX c10_dblB')
        - 0.8 * (momentumX c10_dblA + momentumX c10_dblB)\<bar>
       \<le> (\<bar>rock_vx c10_dblA\<bar> + \<bar>rock_vx c10_dblB\<bar>) / 2 ^ 36 + 1 / 2 ^ 1065
   \<and> \<bar>(momentumY c10_dblA' + momentumY c10_dblB')
        - 0.8 * (momentumY c10_dblA + momentumY c10_dblB)\<bar>
       \<le> (\<bar>rock_vy c10_dblA\<bar> + \<bar>rock_vy c10_dblB\<bar>) / 2 ^ 36 + 1 / 2 ^ 1065
   \<and> rock_mass c10_dblA' = rock_mass c10_dblA \<and> rock_mass c10_dblB' = rock_mass c10_dblB"
proof -
  have moderate: "moderateMotion c10_dblA" "moderateMotion c10_dblB"
    by (simp_all add: moderateMotion_def c10_dblA_def c10_dblB_def)
  from moderate c10_dbl_pair collision_momentum_rounded [OF moderate c10_dbl_pair]
  show ?thesis
    by (intro conjI) blast+
qed

text \<open>
  The claim as stated fails: the factor is not exactly 0.8. For the two rocks above the
  y momentum is 150 before the response; after it the stored velocities carry
  \<open>120 + 35 / 2\<^sup>5\<^sup>1\<close>, and JavaScript computes \<open>120 + 2\<^sup>-\<^sup>4\<^sup>6\<close> for \<open>m1 * v1' + m2 * v2'\<close> and
  120 for \<open>0.8 * 150\<close>.
\<close>

theorem collision_momentum_rounded_counterexample:
  "resolvePairD c10_dblA c10_dblB = Inr (c10_dblA', c10_dblB', True)
   \<and> rock_vy c10_dblA' = 5404319552844596 / 2 ^ 50
   \<and> momentumY c10_dblA + momentumY c10_dblB = 150
   \<and> momentumY c10_dblA' + momentumY c10_dblB' = 120 + 35 / 2 ^ 51
   \<and> momentumY c10_dblA' + momentumY c10_dblB'
        \<noteq> 0.8 * (momentumY c10_dblA + momentumY c10_dblB)
   \<and> momentumYD c10_dblA' c10_dblB' = Fin (120 + 1 / 2 ^ 46)
   \<and> jmul (lit 0.8) (momentumYD c10_dblA c10_dblB) = Fin 120"
proof -
  have exact: "momentumY c10_dblA + momentumY c10_dblB = 150"
    "momentumY c10_dblA' + momentumY c10_dblB' = 120 + 35 / 2 ^ 51"
    by (simp_all add: momentumY_def c10_dblA_def c10_dblB_def c10_dblA'_def c10_dblB'_def)
  have stored: "momentumYD c10_dblA' c10_dblB' = Fin (120 + 1 / 2 ^ 46)"
    by (simp add: momentumYD_def c10_dblA_def c10_dblB_def c10_dblA'_def c10_dblB'_def
        rd_eval nearest_0 nearest_evals roundEven_def)
  have scaled: "jmul (lit 0.8) (momentumYD c10_dblA c10_dblB) = Fin 120"
    by (simp add: momentumYD_def c10_dblA_def c10_dblB_def lit_def
        rd_eval nearest_0 nearest_evals roundEven_def)
  from exact have "momentumY c10_dblA' + momentumY c10_dblB'
        \<noteq> 0.8 * (momentumY c10_dblA + momentumY c10_dblB)"
    by simp
  with c10_dbl_pair exact stored scaled show ?thesis
    by (simp add: c10_dblA'_def)
qed

end
